theory Spec2Isabelle
  imports Main "HOL-Library.Word" "HOL-Library.Signed_Division"
begin

section \<open>MAX17048 fuel gauge driver (hackberrypi-max17048.c)\<close>

text \<open>
  A shallow embedding of the driver. C integers are machine words: \<open>u32\<close> is
  \<open>uint32_t\<close>/\<open>u32\<close>, \<open>s32\<close> is \<open>int\<close>/\<open>int32_t\<close>, \<open>s16\<close> is \<open>int16_t\<close>,
  \<open>s64\<close>/\<open>u64\<close> are the 64-bit kernel types. Signed and unsigned words share one
  HOL type; the signed ones are read with \<open>sint\<close> and compared with \<open><s\<close> and
  \<open>\<le>s\<close>, the unsigned ones are read with \<open>uint\<close> and compared with \<open><\<close> and \<open>\<le>\<close>.
  Conversions are \<open>ucast\<close> (zero extension or truncation) and \<open>scast\<close> (sign
  extension).
\<close>

type_synonym u16 = "16 word"
type_synonym s16 = "16 word"
type_synonym u32 = "32 word"
type_synonym s32 = "32 word"
type_synonym u64 = "64 word"
type_synonym s64 = "64 word"

subsection \<open>Kernel constants and helpers used by the driver\<close>

text \<open>Error numbers of \<open>errno-base.h\<close> and \<open>errno.h\<close>; the driver returns them with a minus sign.\<close>

definition EIO :: s32 where "EIO = 5"
definition ENOMEM :: s32 where "ENOMEM = 12"
definition EINVAL :: s32 where "EINVAL = 22"
definition ENODATA :: s32 where "ENODATA = 61"

text \<open>
  \<open>div_s64(s64 dividend, s32 divisor)\<close> and \<open>div_u64(u64 dividend, u32 divisor)\<close> of
  \<open>linux/math64.h\<close>: C division, which truncates towards zero. The divisor parameter
  is 32 bits wide, so a 64-bit argument is narrowed at the call.
\<close>

definition div_s64 :: "s64 \<Rightarrow> s32 \<Rightarrow> s64" where
  "div_s64 dividend divisor = word_of_int (sint dividend sdiv sint divisor)"

definition div_u64 :: "u64 \<Rightarrow> u32 \<Rightarrow> u64" where
  "div_u64 dividend divisor = dividend div ucast divisor"

text \<open>
  The kernel's \<open>abs\<close> macro at type \<open>int\<close>. The driver applies it to an
  \<open>int16_t\<close>, which C promotes to \<open>int\<close> before the negation, so the caller
  sign-extends the argument first.
\<close>

definition abs_s32 :: "s32 \<Rightarrow> s32" where
  "abs_s32 j = (if j <s 0 then - j else j)"

text \<open>\<open>enum power_supply_status\<close> values and their numbering in \<open>linux/power_supply.h\<close>.\<close>

datatype power_supply_status =
    POWER_SUPPLY_STATUS_UNKNOWN
  | POWER_SUPPLY_STATUS_CHARGING
  | POWER_SUPPLY_STATUS_DISCHARGING
  | POWER_SUPPLY_STATUS_NOT_CHARGING
  | POWER_SUPPLY_STATUS_FULL

fun status_intval :: "power_supply_status \<Rightarrow> s32" where
  "status_intval POWER_SUPPLY_STATUS_UNKNOWN = 0"
| "status_intval POWER_SUPPLY_STATUS_CHARGING = 1"
| "status_intval POWER_SUPPLY_STATUS_DISCHARGING = 2"
| "status_intval POWER_SUPPLY_STATUS_NOT_CHARGING = 3"
| "status_intval POWER_SUPPLY_STATUS_FULL = 4"

definition POWER_SUPPLY_TECHNOLOGY_LIPO :: s32 where
  "POWER_SUPPLY_TECHNOLOGY_LIPO = 3"

text \<open>
  \<open>enum power_supply_property\<close>: the ten selectors the driver handles, and one
  constructor standing for every other enumerator of the kernel's enum.
\<close>

datatype power_supply_property =
    POWER_SUPPLY_PROP_STATUS
  | POWER_SUPPLY_PROP_VOLTAGE_NOW
  | POWER_SUPPLY_PROP_CAPACITY
  | POWER_SUPPLY_PROP_CHARGE_FULL_DESIGN
  | POWER_SUPPLY_PROP_CHARGE_NOW
  | POWER_SUPPLY_PROP_ENERGY_FULL_DESIGN
  | POWER_SUPPLY_PROP_TECHNOLOGY
  | POWER_SUPPLY_PROP_CURRENT_NOW
  | POWER_SUPPLY_PROP_TIME_TO_EMPTY_NOW
  | POWER_SUPPLY_PROP_TIME_TO_FULL_NOW
  | POWER_SUPPLY_PROP_OTHER

subsection \<open>Registers and the register map\<close>

definition MAX17048_VCELL_REG :: u32 where "MAX17048_VCELL_REG = 0x02"
definition MAX17048_SOC_REG :: u32 where "MAX17048_SOC_REG = 0x04"
definition MAX17048_CRATE_REG :: u32 where "MAX17048_CRATE_REG = 0x16"

text \<open>
  The register map is the snapshot a query reads from: for each register either the
  return code of a failed transfer (\<open>Inl\<close>) or the 16-bit register word (\<open>Inr\<close>;
  \<open>val_bits = 16\<close> in \<open>max17048_regmap_cfg\<close>). \<open>regmap_read\<close> returns the code and
  the new content of \<open>*val\<close>, which a failed read leaves as it was.
\<close>

type_synonym regmap = "u32 \<Rightarrow> s32 + u16"

definition regmap_read :: "regmap \<Rightarrow> u32 \<Rightarrow> u32 \<Rightarrow> s32 \<times> u32" where
  "regmap_read rmap reg val =
     (case rmap reg of Inl err \<Rightarrow> (err, val) | Inr raw \<Rightarrow> (0, ucast raw))"

text \<open>\<open>struct max17048\<close>, without the pointers to kernel objects.\<close>

record max17048 =
  regmap :: regmap
  charge_full_design_uah :: u32
  energy_full_design_uwh :: u32

subsection \<open>Unit converters\<close>

definition max17048_get_vcell :: "max17048 \<Rightarrow> s32" where
  "max17048_get_vcell battery =
     (case regmap_read (regmap battery) MAX17048_VCELL_REG 0 of
        (ret, vcell) \<Rightarrow>
          if ret \<noteq> 0 then ret
          else vcell * 625 div 8)"

definition max17048_get_soc :: "max17048 \<Rightarrow> s32" where
  "max17048_get_soc battery =
     (case regmap_read (regmap battery) MAX17048_SOC_REG 0 of
        (ret, soc) \<Rightarrow>
          if ret \<noteq> 0 then ret
          else
            let soc = soc div 256;
                soc = (if soc < 0 then 0 else soc);
                soc = (if soc > 100 then 100 else soc)
            in soc)"

text \<open>
  \<open>max17048_get_crate\<close> returns a code and writes \<open>*crate\<close> only on success:
  \<open>Inl ret\<close> is the nonzero return, \<open>Inr crate\<close> is return 0 with the value written.
\<close>

definition max17048_get_crate :: "max17048 \<Rightarrow> s32 + s16" where
  "max17048_get_crate battery =
     (case regmap_read (regmap battery) MAX17048_CRATE_REG 0 of
        (ret, crate_raw) \<Rightarrow>
          if ret \<noteq> 0 then Inl ret
          else Inr (ucast crate_raw))"

subsection \<open>Status\<close>

definition max17048_get_status :: "max17048 \<Rightarrow> power_supply_status" where
  "max17048_get_status battery =
     (case max17048_get_crate battery of
        Inl ret \<Rightarrow> POWER_SUPPLY_STATUS_UNKNOWN
      | Inr crate \<Rightarrow>
          if 4 <s (scast crate :: s32) then POWER_SUPPLY_STATUS_CHARGING
          else if (scast crate :: s32) <s - 4 then POWER_SUPPLY_STATUS_DISCHARGING
          else
            let soc = max17048_get_soc battery
            in if 95 \<le>s soc then POWER_SUPPLY_STATUS_FULL
               else POWER_SUPPLY_STATUS_NOT_CHARGING)"

subsection \<open>Current\<close>

text \<open>
  The functions with an \<open>int *val\<close> parameter return \<open>Inl ret\<close> for a nonzero return
  code, with \<open>*val\<close> untouched, and \<open>Inr v\<close> for return 0 with \<open>v\<close> written to \<open>*val\<close>.
\<close>

definition max17048_get_current :: "max17048 \<Rightarrow> s32 + s32" where
  "max17048_get_current battery =
     (case max17048_get_crate battery of
        Inl ret \<Rightarrow> Inl ret
      | Inr crate \<Rightarrow>
          Inr (ucast (div_s64
                 ((ucast (charge_full_design_uah battery) :: s64) * scast crate * 52)
                 25000)))"

subsection \<open>Time to empty\<close>

text \<open>
  The noise floor of \<open>max17048_get_time_to_empty\<close> (the statements from
  \<open>discharge_rate = abs(crate)\<close> to the check \<open>discharge_rate <= 0\<close>): \<open>Inl\<close> is the
  code returned early, \<open>Inr\<close> the discharge rate that reaches the division. The
  quotient \<open>144230769 / charge_full_design_uah\<close> is an unsigned division, stored in
  an \<open>int32_t\<close>.
\<close>

definition tte_discharge_rate :: "u32 \<Rightarrow> s16 \<Rightarrow> s32 + s32" where
  "tte_discharge_rate charge_full_design crate =
     (let discharge_rate = abs_s32 (scast crate);
          floored =
            (if charge_full_design > 0 then
               let min_discharge_rate = 144230769 div charge_full_design
               in Inr (if discharge_rate <s min_discharge_rate then min_discharge_rate
                       else discharge_rate)
             else if discharge_rate = 0 then Inl (- ENODATA)
             else Inr discharge_rate)
      in case floored of
           Inl ret \<Rightarrow> Inl ret
         | Inr discharge_rate \<Rightarrow>
             if discharge_rate \<le>s 0 then Inl (- ENODATA) else Inr discharge_rate)"

text \<open>The divisor handed to \<open>div_s64\<close>: \<open>(s64)discharge_rate * 13\<close>, narrowed to \<open>s32\<close>.\<close>

definition tte_divisor :: "s32 \<Rightarrow> s32" where
  "tte_divisor discharge_rate = ucast ((scast discharge_rate :: s64) * 13)"

definition max17048_get_time_to_empty :: "max17048 \<Rightarrow> s32 + s32" where
  "max17048_get_time_to_empty battery =
     (case max17048_get_crate battery of
        Inl ret \<Rightarrow> Inl ret
      | Inr crate \<Rightarrow>
          if - 10 \<le>s (scast crate :: s32) then Inl (- ENODATA)
          else
            let soc = max17048_get_soc battery
            in if soc <s 0 then Inl soc
               else
                 (case tte_discharge_rate (charge_full_design_uah battery) crate of
                    Inl ret \<Rightarrow> Inl ret
                  | Inr discharge_rate \<Rightarrow>
                      Inr (ucast (div_s64 ((225000 :: s64) * scast soc)
                                    (tte_divisor discharge_rate)))))"

subsection \<open>Time to full\<close>

definition max17048_get_time_to_full :: "max17048 \<Rightarrow> s32 + s32" where
  "max17048_get_time_to_full battery =
     (case max17048_get_crate battery of
        Inl ret \<Rightarrow> Inl ret
      | Inr crate \<Rightarrow>
          if (scast crate :: s32) \<le>s 10 then Inl (- ENODATA)
          else
            let soc = max17048_get_soc battery
            in if soc <s 0 then Inl soc
               else if crate = 0 then Inl (- ENODATA)
               else
                 Inr (ucast (div_s64 ((225000 :: s64) * scast (100 - soc))
                               (ucast ((scast crate :: s64) * 13)))))"

subsection \<open>Metric dispatch\<close>

text \<open>
  \<open>max17048_get_property\<close> returns its code together with the value written to
  \<open>val->intval\<close>, \<open>None\<close> when nothing was written.
\<close>

definition max17048_get_property ::
  "max17048 \<Rightarrow> power_supply_property \<Rightarrow> s32 \<times> s32 option" where
  "max17048_get_property battery psp =
     (case psp of
        POWER_SUPPLY_PROP_STATUS \<Rightarrow>
          (0, Some (status_intval (max17048_get_status battery)))
      | POWER_SUPPLY_PROP_VOLTAGE_NOW \<Rightarrow>
          (let ret = max17048_get_vcell battery
           in if ret <s 0 then (ret, None) else (0, Some ret))
      | POWER_SUPPLY_PROP_CAPACITY \<Rightarrow>
          (let ret = max17048_get_soc battery
           in if ret <s 0 then (ret, None) else (0, Some ret))
      | POWER_SUPPLY_PROP_CHARGE_NOW \<Rightarrow>
          (let ret = max17048_get_soc battery
           in if ret <s 0 then (ret, None)
              else (0, Some (ucast (div_s64
                     ((scast ret :: s64) * ucast (charge_full_design_uah battery)) 100))))
      | POWER_SUPPLY_PROP_CHARGE_FULL_DESIGN \<Rightarrow>
          (0, Some (charge_full_design_uah battery))
      | POWER_SUPPLY_PROP_ENERGY_FULL_DESIGN \<Rightarrow>
          (0, Some (energy_full_design_uwh battery))
      | POWER_SUPPLY_PROP_TECHNOLOGY \<Rightarrow>
          (0, Some POWER_SUPPLY_TECHNOLOGY_LIPO)
      | POWER_SUPPLY_PROP_CURRENT_NOW \<Rightarrow>
          (case max17048_get_current battery of
             Inl ret \<Rightarrow> if ret <s 0 then (ret, None) else (0, None)
           | Inr v \<Rightarrow> (0, Some v))
      | POWER_SUPPLY_PROP_TIME_TO_EMPTY_NOW \<Rightarrow>
          (case max17048_get_time_to_empty battery of
             Inl ret \<Rightarrow> if ret <s 0 then (ret, None) else (0, None)
           | Inr v \<Rightarrow> (0, Some v))
      | POWER_SUPPLY_PROP_TIME_TO_FULL_NOW \<Rightarrow>
          (case max17048_get_time_to_full battery of
             Inl ret \<Rightarrow> if ret <s 0 then (ret, None) else (0, None)
           | Inr v \<Rightarrow> (0, Some v))
      | POWER_SUPPLY_PROP_OTHER \<Rightarrow> (- EINVAL, None))"

subsection \<open>Attach\<close>

text \<open>
  What \<open>max17048_probe\<close> reads from its surroundings: whether the adapter has
  \<open>I2C_FUNC_SMBUS_BYTE\<close>, whether \<open>devm_kzalloc\<close> gave memory, the result of
  \<open>devm_regmap_init_i2c\<close> (an \<open>ERR_PTR\<close> code or the register map), the firmware
  properties of the device (a missing name is a property that cannot be read), and
  the \<open>ERR_PTR\<close> code of \<open>devm_power_supply_register\<close> when it fails.
\<close>

record i2c_client =
  i2c_functionality :: bool
  kzalloc_ok :: bool
  regmap_init :: "s32 + regmap"
  properties :: "string \<rightharpoonup> u32"
  register_err :: "s32 option"

text \<open>
  \<open>device_property_read_u32\<close>: 0 and the value on success, a negative code on failure
  with \<open>*val\<close> left as it was. The driver tests the code against 0 only.
\<close>

definition device_property_read_u32 ::
  "(string \<rightharpoonup> u32) \<Rightarrow> string \<Rightarrow> u32 \<Rightarrow> s32 \<times> u32" where
  "device_property_read_u32 dev propname val =
     (case dev propname of None \<Rightarrow> (- EINVAL, val) | Some v \<Rightarrow> (0, v))"

text \<open>
  The part of \<open>max17048_probe\<close> that settles \<open>charge_full_design_uah\<close>; the field
  starts at 0 (\<open>devm_kzalloc\<close> zeroes the structure).
\<close>

definition probe_charge_full_design :: "(string \<rightharpoonup> u32) \<Rightarrow> u32" where
  "probe_charge_full_design dev =
     (case device_property_read_u32 dev ''charge-full-design-microamp-hours'' 0 of
        (ret, charge) \<Rightarrow>
          let charge = (if charge > 100000000 then 100000000 else charge);
              charge =
                (if ret \<noteq> 0 then
                   (case device_property_read_u32 dev ''battery-capacity'' 0 of
                      (ret_mah, cap_mah) \<Rightarrow>
                        if ret_mah = 0 then
                          (if cap_mah > 0 \<and> cap_mah < 20000 then cap_mah * 1000
                           else charge)
                        else charge)
                 else charge);
              charge = (if charge = 0 then 5000000 else charge)
          in charge)"

text \<open>The part of \<open>max17048_probe\<close> that settles \<open>energy_full_design_uwh\<close>.\<close>

definition probe_energy_full_design :: "(string \<rightharpoonup> u32) \<Rightarrow> u32 \<Rightarrow> u32" where
  "probe_energy_full_design dev charge =
     (case device_property_read_u32 dev ''energy-full-design-microwatt-hours'' 0 of
        (ret, energy) \<Rightarrow>
          let energy =
                (if ret \<noteq> 0 \<or> energy = 0 then
                   ucast (div_u64 ((ucast charge :: u64) * 37) 10)
                 else energy);
              energy = (if energy > 370000000 then 370000000 else energy)
          in energy)"

text \<open>\<open>Inl\<close> is the error code returned, \<open>Inr\<close> the driver data registered on return 0.\<close>

definition max17048_probe :: "i2c_client \<Rightarrow> s32 + max17048" where
  "max17048_probe client =
     (if \<not> i2c_functionality client then Inl (- EIO)
      else if \<not> kzalloc_ok client then Inl (- ENOMEM)
      else
        let charge = probe_charge_full_design (properties client);
            energy = probe_energy_full_design (properties client) charge
        in (case regmap_init client of
              Inl err \<Rightarrow> Inl err
            | Inr rmap \<Rightarrow>
                (case register_err client of
                   Some err \<Rightarrow> Inl err
                 | None \<Rightarrow>
                     Inr \<lparr>regmap = rmap,
                          charge_full_design_uah = charge,
                          energy_full_design_uwh = energy\<rparr>)))"

section \<open>The estimation contract in the specification's terms\<close>

text \<open>
  The functions below are written from the specification over unbounded integers;
  \<open>sdiv\<close> is integer division truncating towards zero. A reading is \<open>Inl code\<close> when
  the register read failed with that return code and \<open>Inr value\<close> when it succeeded;
  a result is \<open>Inl code\<close> for a failure and \<open>Inr value\<close> for a value.
\<close>

definition soc_percent_spec :: "int \<Rightarrow> int" where
  "soc_percent_spec raw_soc =
     (let percent = raw_soc sdiv 256
      in if percent < 0 then 0 else if percent > 100 then 100 else percent)"

text \<open>
  The two readings a query takes from a snapshot, as the specification's inputs: the
  signed c-rate and the state of charge in percent.
\<close>

definition read_crate :: "max17048 \<Rightarrow> int + int" where
  "read_crate battery = map_sum sint sint (regmap battery MAX17048_CRATE_REG)"

definition read_soc :: "max17048 \<Rightarrow> int + int" where
  "read_soc battery =
     map_sum sint (\<lambda>raw. soc_percent_spec (uint raw)) (regmap battery MAX17048_SOC_REG)"

text \<open>
  The contract of \<open>regmap_read\<close>: 0 on success, a negative error number on failure.
  The predicate says so for the three registers the driver reads.
\<close>

definition error_codes_negative :: "max17048 \<Rightarrow> bool" where
  "error_codes_negative battery =
     (\<forall>reg \<in> {MAX17048_VCELL_REG, MAX17048_SOC_REG, MAX17048_CRATE_REG}.
        case regmap battery reg of Inl err \<Rightarrow> err <s 0 | Inr raw \<Rightarrow> True)"

text \<open>The code of the no-data outcome.\<close>

definition no_data :: int where
  "no_data = sint (- ENODATA)"

definition status_spec :: "int + int \<Rightarrow> int + int \<Rightarrow> power_supply_status" where
  "status_spec c_rate soc =
     (case c_rate of
        Inl err \<Rightarrow> POWER_SUPPLY_STATUS_UNKNOWN
      | Inr c \<Rightarrow>
          if c > 4 then POWER_SUPPLY_STATUS_CHARGING
          else if c < - 4 then POWER_SUPPLY_STATUS_DISCHARGING
          else (case soc of
                  Inr percent \<Rightarrow>
                    if percent \<ge> 95 then POWER_SUPPLY_STATUS_FULL
                    else POWER_SUPPLY_STATUS_NOT_CHARGING
                | Inl err \<Rightarrow> POWER_SUPPLY_STATUS_NOT_CHARGING))"

definition current_spec :: "int \<Rightarrow> int \<Rightarrow> int" where
  "current_spec design_capacity c_rate = design_capacity * c_rate * 52 sdiv 25000"

definition time_to_empty_spec :: "int + int \<Rightarrow> int + int \<Rightarrow> int \<Rightarrow> int + int" where
  "time_to_empty_spec c_rate soc design_capacity =
     (case c_rate of
        Inl err \<Rightarrow> Inl err
      | Inr c \<Rightarrow>
          if c \<ge> - 10 then Inl no_data
          else (case soc of
                  Inl err \<Rightarrow> Inl err
                | Inr percent \<Rightarrow>
                    let min_rate = 144230769 sdiv design_capacity;
                        discharge_rate =
                          (if design_capacity > 0 \<and> \<bar>c\<bar> < min_rate then min_rate
                           else \<bar>c\<bar>)
                    in if design_capacity = 0 \<and> discharge_rate = 0 then Inl no_data
                       else Inr (225000 * percent sdiv (discharge_rate * 13))))"

definition time_to_full_spec :: "int + int \<Rightarrow> int + int \<Rightarrow> int + int" where
  "time_to_full_spec c_rate soc =
     (case c_rate of
        Inl err \<Rightarrow> Inl err
      | Inr c \<Rightarrow>
          if c \<le> 10 \<or> c = 0 then Inl no_data
          else (case soc of
                  Inl err \<Rightarrow> Inl err
                | Inr percent \<Rightarrow> Inr (225000 * (100 - percent) sdiv (c * 13))))"

text \<open>
  The designed capacity from the two optional configuration values, the one in
  microamp-hours and the legacy one in milliamp-hours.
\<close>

definition design_capacity_spec :: "int option \<Rightarrow> int option \<Rightarrow> int" where
  "design_capacity_spec uah mah =
     (let capacity =
            (case uah of
               Some u \<Rightarrow> if u > 100000000 then 100000000 else u
             | None \<Rightarrow>
                 (case mah of
                    Some m \<Rightarrow> if 0 < m \<and> m < 20000 then m * 1000 else 0
                  | None \<Rightarrow> 0))
      in if capacity = 0 then 5000000 else capacity)"

text \<open>
  The designed energy as the specification's sentence reads literally: capacity times
  3.7, over 10, truncated.
\<close>

definition design_energy_as_written :: "int \<Rightarrow> int" where
  "design_energy_as_written design_capacity = design_capacity * 37 sdiv 100"

section \<open>Concrete inputs\<close>

text \<open>
  A device whose three registers answer as given (every other register fails with
  \<open>-EIO\<close>), with the given design capacity and energy.
\<close>

definition snapshot ::
  "s32 + u16 \<Rightarrow> s32 + u16 \<Rightarrow> s32 + u16 \<Rightarrow> u32 \<Rightarrow> u32 \<Rightarrow> max17048" where
  "snapshot vcell soc crate charge energy =
     \<lparr>regmap = (\<lambda>reg. if reg = MAX17048_VCELL_REG then vcell
                      else if reg = MAX17048_SOC_REG then soc
                      else if reg = MAX17048_CRATE_REG then crate
                      else Inl (- EIO)),
      charge_full_design_uah = charge,
      energy_full_design_uwh = energy\<rparr>"

text \<open>
  An attach that succeeds, with the given firmware properties; its register map fails
  every read with \<open>-EIO\<close>.
\<close>

definition client_with :: "(string \<rightharpoonup> u32) \<Rightarrow> i2c_client" where
  "client_with props =
     \<lparr>i2c_functionality = True, kzalloc_ok = True,
      regmap_init = Inr (\<lambda>reg. Inl (- EIO)),
      properties = props, register_err = None\<rparr>"

section \<open>Word arithmetic used by the proofs\<close>

lemma sint_word_of_int_fits:
  "- (2 ^ (LENGTH('a) - 1)) \<le> k \<Longrightarrow> k < 2 ^ (LENGTH('a) - 1) \<Longrightarrow>
   sint (word_of_int k :: 'a::len word) = k"
  by (simp add: sint_sbintrunc' signed_take_bit_int_eq_self)

lemma uint_u16_bound: "uint (v :: u16) < 65536"
  using uint_bounded [of v] by simp

lemma uint_ucast_u16_u32: "uint (ucast (v :: u16) :: u32) = uint v"
  by (simp add: uint_up_ucast is_up)

lemma sint_s32_of_small:
  assumes "uint (x :: s32) < 2147483648"
  shows "sint x = uint x"
proof -
  have "- 2147483648 \<le> uint x"
    using uint_ge_0 [of x] by linarith
  then have "sint (word_of_int (uint x) :: s32) = uint x"
    using assms by (intro sint_word_of_int_fits) simp_all
  then show ?thesis by simp
qed

lemma sint_word_of_int_nonneg:
  assumes "0 \<le> k" "k < 2 ^ (LENGTH('a) - 1)"
  shows "sint (word_of_int k :: 'a::len word) = k"
proof (rule sint_word_of_int_fits)
  have "- (2 ^ (LENGTH('a) - 1)) \<le> (0 :: int)" by simp
  then show "- (2 ^ (LENGTH('a) - 1)) \<le> k" using assms(1) by (rule order_trans)
  show "k < 2 ^ (LENGTH('a) - 1)" by (rule assms(2))
qed

lemma sint_s16_bounds: "- 32768 \<le> sint (c :: s16)" "sint (c :: s16) \<le> 32767"
  using sint_range_size [of c] by (simp_all add: word_size)

lemma ucast_u16_roundtrip: "(ucast (ucast (v :: u16) :: u32) :: u16) = v"
  by (simp add: ucast_up_ucast_id is_up)

lemma sint_scast_s16_s32: "sint (scast (c :: s16) :: s32) = sint c"
  by (simp add: sint_up_scast is_up)

lemma sint_scast_s16_s64: "sint (scast (c :: s16) :: s64) = sint c"
  by (simp add: sint_up_scast is_up)

lemma sint_scast_s32_s64: "sint (scast (c :: s32) :: s64) = sint c"
  by (simp add: sint_up_scast is_up)

lemma sint_ucast_u32_s64: "sint (ucast (c :: u32) :: s64) = uint c"
proof -
  have "uint c < 4294967296" using uint_bounded [of c] by simp
  then have "uint c < 2 ^ (LENGTH(64) - 1)" by simp
  then have "sint (word_of_int (uint c) :: s64) = uint c"
    by (intro sint_word_of_int_nonneg) simp_all
  then show ?thesis by simp
qed

lemma sint_mult_s64:
  assumes "- 9223372036854775808 \<le> sint a * sint b" "sint a * sint b < 9223372036854775808"
  shows "sint (a * b :: s64) = sint a * sint b"
  using assms by (simp add: sint_word_mult signed_take_bit_int_eq_self)

lemma ucast_s64_s32_as_int: "(ucast (a :: s64) :: s32) = word_of_int (sint a)"
proof -
  have "(ucast (word_of_int (sint a) :: s64) :: s32) = word_of_int (sint a)"
    by (rule ucast_down_wi) (simp add: is_down)
  then show ?thesis by simp
qed

lemma sint_narrow_s64_s32:
  assumes "- 2147483648 \<le> sint a" "sint a < 2147483648"
  shows "sint (ucast (a :: s64) :: s32) = sint a"
  unfolding ucast_s64_s32_as_int
  using assms by (intro sint_word_of_int_fits) simp_all

lemma sint_div_s64:
  assumes "- 9223372036854775808 \<le> sint a sdiv sint b"
    and "sint a sdiv sint b < 9223372036854775808"
  shows "sint (div_s64 a b) = sint a sdiv sint b"
  unfolding div_s64_def using assms by (intro sint_word_of_int_fits) simp_all

lemma snapshot_regs:
  "regmap (snapshot v s c q e) MAX17048_VCELL_REG = v"
  "regmap (snapshot v s c q e) MAX17048_SOC_REG = s"
  "regmap (snapshot v s c q e) MAX17048_CRATE_REG = c"
  by (simp_all add: snapshot_def MAX17048_VCELL_REG_def MAX17048_SOC_REG_def
        MAX17048_CRATE_REG_def)

section \<open>Unit converters\<close>

lemma uint_vcell_scaled:
  "uint ((ucast (v :: u16) :: u32) * 625 div 8) = uint v * 625 div 8"
proof -
  have "uint ((ucast v :: u32) * 625) = uint v * 625 mod 2 ^ 32"
    by (simp add: uint_word_ariths uint_ucast_u16_u32)
  also have "\<dots> = uint v * 625"
    using uint_u16_bound [of v] by simp
  finally show ?thesis
    by (simp add: uint_div)
qed

lemma get_vcell_read_ok:
  assumes "regmap battery MAX17048_VCELL_REG = Inr v"
  shows "sint (max17048_get_vcell battery) = uint v * 625 div 8"
proof -
  have "max17048_get_vcell battery = (ucast v :: u32) * 625 div 8"
    using assms by (simp add: max17048_get_vcell_def regmap_read_def)
  moreover have "uint ((ucast v :: u32) * 625 div 8) < 2147483648"
    using uint_u16_bound [of v] by (simp add: uint_vcell_scaled)
  ultimately show ?thesis
    by (simp add: sint_s32_of_small uint_vcell_scaled)
qed

text \<open>
  Claim C9. When the voltage register reads as the 16-bit word \<open>v\<close> (any value from 0
  to 65535), the reported voltage in microvolts is \<open>v * 625 / 8\<close> in exact integer
  arithmetic with truncating division; it is never negative, and a larger register
  value never gives a smaller voltage.
\<close>

theorem max17048_get_vcell_conversion:
  assumes "regmap battery MAX17048_VCELL_REG = Inr v"
  shows "sint (max17048_get_vcell battery) = uint v * 625 div 8
       \<and> 0 \<le> sint (max17048_get_vcell battery)
       \<and> (\<forall>battery' v'. regmap battery' MAX17048_VCELL_REG = Inr v' \<and> v \<le> v'
             \<longrightarrow> sint (max17048_get_vcell battery) \<le> sint (max17048_get_vcell battery'))"
proof (intro conjI allI impI)
  show eq: "sint (max17048_get_vcell battery) = uint v * 625 div 8"
    by (rule get_vcell_read_ok [OF assms])
  show "0 \<le> sint (max17048_get_vcell battery)"
    unfolding eq by (simp add: pos_imp_zdiv_nonneg_iff)
next
  fix battery' :: max17048 and v' :: u16
  assume h: "regmap battery' MAX17048_VCELL_REG = Inr v' \<and> v \<le> v'"
  then have "uint v \<le> uint v'"
    by (simp add: word_le_def)
  then have "uint v * 625 div 8 \<le> uint v' * 625 div 8"
    by (intro zdiv_mono1) simp_all
  with h show "sint (max17048_get_vcell battery) \<le> sint (max17048_get_vcell battery')"
    by (simp add: get_vcell_read_ok [OF assms] get_vcell_read_ok [of battery' v'])
qed

theorem max17048_get_vcell_conversion_witness:
  "sint (max17048_get_vcell (snapshot (Inr 1000) (Inr 0) (Inr 0) 5000000 18500000)) = 78125
   \<and> sint (max17048_get_vcell (snapshot (Inr 1000) (Inr 0) (Inr 0) 5000000 18500000))
       \<le> sint (max17048_get_vcell (snapshot (Inr 65535) (Inr 0) (Inr 0) 5000000 18500000))"
proof -
  let ?b = "snapshot (Inr 1000) (Inr 0) (Inr 0) 5000000 18500000"
  let ?b' = "snapshot (Inr 65535) (Inr 0) (Inr 0) 5000000 18500000"
  have h: "regmap ?b MAX17048_VCELL_REG = Inr 1000"
    by (simp add: snapshot_regs)
  have h': "regmap ?b' MAX17048_VCELL_REG = Inr 65535 \<and> (1000 :: u16) \<le> 65535"
    by (simp add: snapshot_regs)
  from max17048_get_vcell_conversion [OF h] h' show ?thesis
    by auto
qed

lemma uint_soc_scaled: "uint ((ucast (s :: u16) :: u32) div 256) = uint s div 256"
  by (simp add: uint_div uint_ucast_u16_u32)

lemma get_soc_read_ok:
  assumes "regmap battery MAX17048_SOC_REG = Inr s"
  shows "sint (max17048_get_soc battery) = min 100 (uint s div 256)"
proof -
  let ?q = "(ucast s :: u32) div 256"
  have q: "uint ?q = uint s div 256" by (rule uint_soc_scaled)
  have soc: "max17048_get_soc battery = (if ?q > 100 then 100 else ?q)"
    using assms by (simp add: max17048_get_soc_def regmap_read_def Let_def)
  show ?thesis
  proof (cases "?q > 100")
    case True
    then have "100 < uint s div 256" by (simp add: word_less_def q)
    with True soc show ?thesis by simp
  next
    case False
    then have le: "uint s div 256 \<le> 100" by (simp add: word_less_def q)
    then have "uint ?q < 2147483648" unfolding q by linarith
    then have "sint ?q = uint s div 256" by (simp add: sint_s32_of_small q)
    with False soc le show ?thesis by simp
  qed
qed

lemma get_soc_read_failed:
  assumes "regmap battery MAX17048_SOC_REG = Inl e" "e \<noteq> 0"
  shows "max17048_get_soc battery = e"
  using assms by (simp add: max17048_get_soc_def regmap_read_def)

lemma get_crate_read_ok:
  assumes "regmap battery MAX17048_CRATE_REG = Inr c"
  shows "max17048_get_crate battery = Inr c"
  using assms by (simp add: max17048_get_crate_def regmap_read_def ucast_u16_roundtrip)

lemma get_crate_read_failed:
  assumes "regmap battery MAX17048_CRATE_REG = Inl e" "e \<noteq> 0"
  shows "max17048_get_crate battery = Inl e"
  using assms by (simp add: max17048_get_crate_def regmap_read_def)

text \<open>
  Claim C8. When the SOC register reads as the 16-bit word \<open>s\<close> (any value from 0 to
  65535), the reported state of charge is \<open>s / 256\<close>, truncated, clamped into
  \<open>[0, 100]\<close>, so it lies between 0 and 100. The clamp of negative values to 0 is
  part of the function, and its condition never holds for the unsigned quotient.
\<close>

theorem max17048_get_soc_clamped:
  assumes "regmap battery MAX17048_SOC_REG = Inr s"
  shows "sint (max17048_get_soc battery) = max 0 (min 100 (uint s div 256))
       \<and> 0 \<le> sint (max17048_get_soc battery)
       \<and> sint (max17048_get_soc battery) \<le> 100
       \<and> \<not> (ucast s :: u32) div 256 < 0"
proof -
  have "0 \<le> uint s div 256"
    by (simp add: pos_imp_zdiv_nonneg_iff)
  then show ?thesis
    by (simp add: get_soc_read_ok [OF assms])
qed

theorem max17048_get_soc_clamped_witness:
  "sint (max17048_get_soc (snapshot (Inr 0) (Inr 65535) (Inr 0) 5000000 18500000)) = 100
   \<and> sint (max17048_get_soc (snapshot (Inr 0) (Inr 12799) (Inr 0) 5000000 18500000)) = 49"
proof -
  have h1: "regmap (snapshot (Inr 0) (Inr 65535) (Inr 0) 5000000 18500000)
              MAX17048_SOC_REG = Inr 65535"
    by (simp add: snapshot_regs)
  have h2: "regmap (snapshot (Inr 0) (Inr 12799) (Inr 0) 5000000 18500000)
              MAX17048_SOC_REG = Inr 12799"
    by (simp add: snapshot_regs)
  from max17048_get_soc_clamped [OF h1] max17048_get_soc_clamped [OF h2]
  show ?thesis by simp
qed

lemma sdiv_nonneg_pos: "0 \<le> k \<Longrightarrow> 0 < l \<Longrightarrow> k sdiv l = k div (l :: int)"
  by (cases "k = 0") (simp_all add: signed_divide_int_def sgn_if)

lemma soc_percent_spec_uint: "soc_percent_spec (uint (s :: u16)) = min 100 (uint s div 256)"
proof -
  have "0 \<le> uint s div 256" by (simp add: pos_imp_zdiv_nonneg_iff)
  then show ?thesis
    by (simp add: soc_percent_spec_def sdiv_nonneg_pos Let_def)
qed

lemma error_codes_negativeD:
  assumes "error_codes_negative battery"
  shows "regmap battery MAX17048_VCELL_REG = Inl e \<Longrightarrow> e <s 0"
    and "regmap battery MAX17048_SOC_REG = Inl e \<Longrightarrow> e <s 0"
    and "regmap battery MAX17048_CRATE_REG = Inl e \<Longrightarrow> e <s 0"
  using assms by (auto simp: error_codes_negative_def)

lemma snapshot_codes_negative:
  assumes "case v of Inl err \<Rightarrow> err <s 0 | Inr raw \<Rightarrow> True"
    and "case s of Inl err \<Rightarrow> err <s 0 | Inr raw \<Rightarrow> True"
    and "case c of Inl err \<Rightarrow> err <s 0 | Inr raw \<Rightarrow> True"
  shows "error_codes_negative (snapshot v s c q e)"
  using assms by (simp add: error_codes_negative_def snapshot_regs)

section \<open>Status\<close>

text \<open>
  Claim C1. The status is a function of the latest readings alone: when the c-rate
  read fails it is Unknown; otherwise Charging when the signed c-rate is above 4,
  Discharging when it is below \<open>-4\<close>, and inside the band Full when the state of
  charge is at least 95 percent and NotCharging otherwise (also when the state of
  charge could not be read). A failed read is one that returns a negative code.
\<close>

theorem max17048_get_status_derivation:
  assumes "error_codes_negative battery"
  shows "max17048_get_status battery = status_spec (read_crate battery) (read_soc battery)"
proof (cases "regmap battery MAX17048_CRATE_REG")
  case (Inl e)
  then have "max17048_get_crate battery = Inl e"
    using error_codes_negativeD(3) [OF assms Inl] by (intro get_crate_read_failed) auto
  with Inl show ?thesis
    by (simp add: max17048_get_status_def status_spec_def read_crate_def)
next
  case (Inr c)
  then have crate: "max17048_get_crate battery = Inr c"
    by (rule get_crate_read_ok)
  have rc: "read_crate battery = Inr (sint c)"
    using Inr by (simp add: read_crate_def)
  have gt: "4 <s (scast c :: s32) \<longleftrightarrow> sint c > 4"
    by (simp add: word_sless_alt sint_scast_s16_s32)
  have lt: "(scast c :: s32) <s - 4 \<longleftrightarrow> sint c < - 4"
    by (simp add: word_sless_alt sint_scast_s16_s32)
  show ?thesis
  proof (cases "regmap battery MAX17048_SOC_REG")
    case (Inl e)
    then have neg: "e <s 0" by (rule error_codes_negativeD(2) [OF assms])
    then have "max17048_get_soc battery = e"
      using Inl by (intro get_soc_read_failed) auto
    moreover have "\<not> 95 \<le>s e"
      using neg by (simp add: word_sle_eq word_sless_alt)
    moreover have "read_soc battery = Inl (sint e)"
      using Inl by (simp add: read_soc_def)
    ultimately show ?thesis
      by (simp add: max17048_get_status_def status_spec_def crate rc gt lt)
  next
    case (Inr s)
    then have "sint (max17048_get_soc battery) = soc_percent_spec (uint s)"
      by (simp add: get_soc_read_ok soc_percent_spec_uint)
    moreover have "read_soc battery = Inr (soc_percent_spec (uint s))"
      using Inr by (simp add: read_soc_def)
    ultimately show ?thesis
      by (simp add: max17048_get_status_def status_spec_def crate rc gt lt word_sle_eq)
  qed
qed


theorem max17048_get_status_derivation_witness:
  "max17048_get_status (snapshot (Inr 0) (Inr 12800) (Inr 5) 5000000 18500000)
     = POWER_SUPPLY_STATUS_CHARGING
   \<and> max17048_get_status (snapshot (Inr 0) (Inr 12800) (Inr (- 5)) 5000000 18500000)
     = POWER_SUPPLY_STATUS_DISCHARGING
   \<and> max17048_get_status (snapshot (Inr 0) (Inr 24576) (Inr 3) 5000000 18500000)
     = POWER_SUPPLY_STATUS_FULL
   \<and> max17048_get_status (snapshot (Inr 0) (Inr 12800) (Inr 0) 5000000 18500000)
     = POWER_SUPPLY_STATUS_NOT_CHARGING
   \<and> max17048_get_status (snapshot (Inr 0) (Inr 24576) (Inl (- EIO)) 5000000 18500000)
     = POWER_SUPPLY_STATUS_UNKNOWN"
proof -
  note neg = snapshot_codes_negative
  have eio: "- EIO <s 0" by (simp add: EIO_def word_sless_alt)
  show ?thesis
    using max17048_get_status_derivation [OF neg, of "Inr 0" "Inr 12800" "Inr 5"]
      max17048_get_status_derivation [OF neg, of "Inr 0" "Inr 12800" "Inr (- 5)"]
      max17048_get_status_derivation [OF neg, of "Inr 0" "Inr 24576" "Inr 3"]
      max17048_get_status_derivation [OF neg, of "Inr 0" "Inr 12800" "Inr 0"]
      max17048_get_status_derivation [OF neg, of "Inr 0" "Inr 24576" "Inl (- EIO)"]
      eio
    by (simp add: status_spec_def read_crate_def read_soc_def snapshot_regs soc_percent_spec_def
          signed_divide_int_def)
qed

section \<open>Time to empty\<close>

lemma sint_abs_s32_crate: "sint (abs_s32 (scast (c :: s16))) = \<bar>sint c\<bar>"
proof (cases "sint c < 0")
  case True
  have "sint (- (scast c :: s32)) = - sint c"
    using sint_s16_bounds [of c]
    by (simp add: sint_word_minus sint_scast_s16_s32 signed_take_bit_int_eq_self)
  with True show ?thesis
    by (simp add: abs_s32_def word_sless_alt sint_scast_s16_s32)
next
  case False
  then show ?thesis
    by (simp add: abs_s32_def word_sless_alt sint_scast_s16_s32)
qed



lemma sdiv_nonneg: "0 \<le> k \<Longrightarrow> 0 \<le> l \<Longrightarrow> k sdiv l = k div (l :: int)"
  by (cases "l = 0") (simp_all add: sdiv_nonneg_pos)

lemma int_div_le_dividend: "0 \<le> a \<Longrightarrow> a div b \<le> (a :: int)"
  using int_div_le_self [of a b] by (cases "a = 0") simp_all

lemma abs_sdiv_int: "\<bar>k sdiv l\<bar> = \<bar>k\<bar> div \<bar>l :: int\<bar>"
proof -
  have "0 \<le> \<bar>k\<bar> div \<bar>l\<bar>"
    by (simp add: pos_imp_zdiv_nonneg_iff div_int_pos_iff)
  then show ?thesis
    by (cases "k = 0"; cases "l = 0")
      (simp_all add: signed_divide_int_def abs_mult)
qed

lemma min_rate_bounds:
  "uint ((144230769 :: u32) div cap) = 144230769 div uint cap"
  "sint ((144230769 :: u32) div cap) = 144230769 div uint cap"
  "0 \<le> 144230769 div uint cap"
  "144230769 div uint cap \<le> 144230769"
proof -
  show u: "uint ((144230769 :: u32) div cap) = 144230769 div uint cap"
    by (simp add: uint_div)
  show nn: "0 \<le> 144230769 div uint cap"
    by (simp add: pos_imp_zdiv_nonneg_iff div_int_pos_iff)
  show le: "144230769 div uint cap \<le> 144230769"
    by (rule int_div_le_dividend) simp
  then have "uint ((144230769 :: u32) div cap) < 2147483648"
    unfolding u by linarith
  then show "sint ((144230769 :: u32) div cap) = 144230769 div uint cap"
    by (simp add: sint_s32_of_small u)
qed

text \<open>The discharge rate that reaches the division, as an integer.\<close>

lemma tte_discharge_rate_value:
  assumes "sint (crate :: s16) < - 10"
  shows "\<exists>r. tte_discharge_rate cap crate = Inr r
           \<and> sint r = (if 0 < uint cap \<and> \<bar>sint crate\<bar> < 144230769 div uint cap
                       then 144230769 div uint cap else \<bar>sint crate\<bar>)"
proof -
  let ?d = "abs_s32 (scast crate)"
  let ?m = "(144230769 :: u32) div cap"
  have d: "sint ?d = \<bar>sint crate\<bar>" by (rule sint_abs_s32_crate)
  have d11: "11 \<le> sint ?d" using assms unfolding d by linarith
  have dnz: "?d \<noteq> 0"
  proof
    assume "?d = 0"
    then have "sint ?d = 0" by simp
    with d11 show False by simp
  qed
  have dpos: "\<not> ?d \<le>s 0" using d11 by (simp add: word_sle_eq)
  have mpos: "\<not> ?m \<le>s 0" if "sint ?d < sint ?m"
    using that d11 by (simp add: word_sle_eq)
  have capz: "0 < cap \<longleftrightarrow> 0 < uint cap"
    by (simp add: word_less_def)
  show ?thesis
  proof (cases "0 < cap")
    case True
    show ?thesis
    proof (cases "?d <s ?m")
      case lt: True
      then have "sint ?d < sint ?m" by (simp add: word_sless_alt)
      then have "tte_discharge_rate cap crate = Inr ?m"
        using True lt mpos by (simp add: tte_discharge_rate_def Let_def)
      moreover have "\<bar>sint crate\<bar> < 144230769 div uint cap"
        using lt by (simp add: word_sless_alt d min_rate_bounds(2))
      ultimately show ?thesis
        using True by (simp add: capz min_rate_bounds(2))
    next
      case ge: False
      then have "tte_discharge_rate cap crate = Inr ?d"
        using True dpos by (simp add: tte_discharge_rate_def Let_def)
      moreover have "\<not> \<bar>sint crate\<bar> < 144230769 div uint cap"
        using ge by (simp add: word_sless_alt d min_rate_bounds(2))
      ultimately show ?thesis
        by (simp add: d)
    qed
  next
    case False
    then have "tte_discharge_rate cap crate = Inr ?d"
      using dnz dpos by (simp add: tte_discharge_rate_def Let_def)
    moreover have "\<not> 0 < uint cap" using False by (simp add: capz)
    ultimately show ?thesis by (simp add: d)
  qed
qed

lemma sint_tte_divisor:
  assumes "0 \<le> sint r" "sint r \<le> 144230769"
  shows "sint (tte_divisor r) = sint r * 13"
proof -
  have m: "sint ((scast r :: s64) * 13) = sint r * 13"
    using assms by (subst sint_mult_s64) (simp_all add: sint_scast_s32_s64)
  show ?thesis
    unfolding tte_divisor_def
    using assms by (subst sint_narrow_s64_s32) (simp_all add: m)
qed


lemma sint_seconds_quotient:
  assumes "0 \<le> sint n" "sint n \<le> 100" "0 < sint d"
  shows "sint (ucast (div_s64 ((225000 :: s64) * scast (n :: s32)) d) :: s32)
           = 225000 * sint n sdiv sint d"
proof -
  have num: "sint ((225000 :: s64) * scast n) = 225000 * sint n"
    using assms by (subst sint_mult_s64) (simp_all add: sint_scast_s32_s64)
  have q: "225000 * sint n sdiv sint d = 225000 * sint n div sint d"
    using assms by (intro sdiv_nonneg_pos) simp_all
  have lo: "0 \<le> 225000 * sint n div sint d"
    using assms by (simp add: pos_imp_zdiv_nonneg_iff)
  have "225000 * sint n div sint d \<le> 225000 * sint n"
    using assms by (intro int_div_le_dividend) simp
  then have hi: "225000 * sint n div sint d \<le> 22500000"
    using assms by linarith
  have "sint (div_s64 ((225000 :: s64) * scast n) d) = 225000 * sint n sdiv sint d"
    using lo hi by (subst sint_div_s64) (simp_all add: num q)
  then show ?thesis
    using lo hi by (subst sint_narrow_s64_s32) (simp_all add: q)
qed

lemma no_data_code: "sint (- ENODATA) = no_data"
  by (simp add: no_data_def)

text \<open>
  Claim C2. With the c-rate read, TimeToEmpty fails with no-data whenever the c-rate
  is at least \<open>-10\<close>; otherwise it fails with the code of the SOC read when that
  read fails; otherwise it returns \<open>225000 * soc / (discharge_rate * 13)\<close> with
  truncating division, where \<open>discharge_rate\<close> is \<open>|c-rate|\<close> raised to
  \<open>144230769 / DesignCapacity\<close> when the capacity is positive and \<open>|c-rate|\<close> is
  below that floor; with a zero capacity it fails with no-data when the discharge
  rate is zero. The 32- and 64-bit arithmetic of the code never wraps here.
\<close>

theorem max17048_get_time_to_empty_spec:
  assumes "error_codes_negative battery"
  shows "map_sum sint sint (max17048_get_time_to_empty battery)
           = time_to_empty_spec (read_crate battery) (read_soc battery)
               (uint (charge_full_design_uah battery))"
proof (cases "regmap battery MAX17048_CRATE_REG")
  case (Inl e)
  then have "max17048_get_crate battery = Inl e"
    using error_codes_negativeD(3) [OF assms Inl] by (intro get_crate_read_failed) auto
  with Inl show ?thesis
    by (simp add: max17048_get_time_to_empty_def time_to_empty_spec_def read_crate_def)
next
  case (Inr c)
  then have crate: "max17048_get_crate battery = Inr c"
    by (rule get_crate_read_ok)
  have rc: "read_crate battery = Inr (sint c)"
    using Inr by (simp add: read_crate_def)
  have ge: "- 10 \<le>s (scast c :: s32) \<longleftrightarrow> - 10 \<le> sint c"
    by (simp add: word_sle_eq sint_scast_s16_s32)
  show ?thesis
  proof (cases "- 10 \<le> sint c")
    case True
    then show ?thesis
      by (simp add: max17048_get_time_to_empty_def time_to_empty_spec_def crate rc ge
            no_data_code)
  next
    case False
    then have lt: "sint c < - 10" by simp
    show ?thesis
    proof (cases "regmap battery MAX17048_SOC_REG")
      case (Inl e)
      then have neg: "e <s 0" by (rule error_codes_negativeD(2) [OF assms])
      then have "max17048_get_soc battery = e"
        using Inl by (intro get_soc_read_failed) auto
      moreover have "read_soc battery = Inl (sint e)"
        using Inl by (simp add: read_soc_def)
      ultimately show ?thesis
        using False neg
        by (simp add: max17048_get_time_to_empty_def time_to_empty_spec_def crate rc ge)
    next
      case (Inr s)
      let ?soc = "max17048_get_soc battery"
      let ?cap = "charge_full_design_uah battery"
      have soc: "sint ?soc = soc_percent_spec (uint s)"
        using Inr by (simp add: get_soc_read_ok soc_percent_spec_uint)
      have soc_lo: "0 \<le> sint ?soc" and soc_hi: "sint ?soc \<le> 100"
        unfolding soc soc_percent_spec_uint by (simp_all add: pos_imp_zdiv_nonneg_iff)
      have nonneg: "\<not> ?soc <s 0"
        using soc_lo by (simp add: word_sless_alt)
      have rs: "read_soc battery = Inr (sint ?soc)"
        using Inr by (simp add: read_soc_def soc)
      obtain r where r: "tte_discharge_rate ?cap c = Inr r"
        and rv: "sint r = (if 0 < uint ?cap \<and> \<bar>sint c\<bar> < 144230769 div uint ?cap
                           then 144230769 div uint ?cap else \<bar>sint c\<bar>)"
        using tte_discharge_rate_value [OF lt, of ?cap] by blast
      have r_lo: "11 \<le> sint r"
        using lt unfolding rv by (simp split: if_splits)
      have abs_hi: "\<bar>sint c\<bar> \<le> 144230769"
        using sint_s16_bounds [of c] by linarith
      have r_hi: "sint r \<le> 144230769"
        using abs_hi min_rate_bounds(4) [of ?cap]
        unfolding rv by (simp split: if_splits)
      have dv: "sint (tte_divisor r) = sint r * 13"
        using r_lo r_hi by (intro sint_tte_divisor) simp_all
      have code: "max17048_get_time_to_empty battery
                    = Inr (ucast (div_s64 ((225000 :: s64) * scast ?soc) (tte_divisor r)))"
        using False nonneg
        by (simp add: max17048_get_time_to_empty_def crate ge r Let_def)
      have val: "sint (ucast (div_s64 ((225000 :: s64) * scast ?soc) (tte_divisor r)) :: s32)
                   = 225000 * sint ?soc sdiv (sint r * 13)"
        using soc_lo soc_hi r_lo by (subst sint_seconds_quotient) (simp_all add: dv)
      have min_rate: "144230769 sdiv uint ?cap = 144230769 div uint ?cap"
        by (rule sdiv_nonneg) simp_all
      have rate_nz: "sint r \<noteq> 0" using r_lo by simp
      show ?thesis
        using False rate_nz
        by (simp add: code val time_to_empty_spec_def rc rs min_rate Let_def rv)
    qed
  qed
qed



lemma snapshot_design:
  "charge_full_design_uah (snapshot v s c q e) = q"
  "energy_full_design_uwh (snapshot v s c q e) = e"
  by (simp_all add: snapshot_def)

lemmas spec_eval = read_crate_def read_soc_def snapshot_regs snapshot_design
  soc_percent_spec_def signed_divide_int_def no_data_def ENODATA_def EIO_def

theorem max17048_get_time_to_empty_spec_witness:
  "map_sum sint sint
     (max17048_get_time_to_empty
        (snapshot (Inr 0) (Inr 12800) (Inr (- 5)) 5000000 18500000)) = Inl (- 61)
   \<and> map_sum sint sint
       (max17048_get_time_to_empty
          (snapshot (Inr 0) (Inr 12800) (Inr (- 11)) 5000000 18500000)) = Inr 30906
   \<and> map_sum sint sint
       (max17048_get_time_to_empty
          (snapshot (Inr 0) (Inr 12800) (Inr (- 3000)) 5000000 18500000)) = Inr 288
   \<and> map_sum sint sint
       (max17048_get_time_to_empty
          (snapshot (Inr 0) (Inr 12800) (Inr (- 11)) 0 18500000)) = Inr 78671
   \<and> map_sum sint sint
       (max17048_get_time_to_empty
          (snapshot (Inr 0) (Inl (- EIO)) (Inr (- 11)) 5000000 18500000)) = Inl (- 5)"
proof -
  note neg = snapshot_codes_negative
  have eio: "- EIO <s 0" by (simp add: EIO_def word_sless_alt)
  have a: "map_sum sint sint
     (max17048_get_time_to_empty
        (snapshot (Inr 0) (Inr 12800) (Inr (- 5)) 5000000 18500000)) = Inl (- 61)"
    by (subst max17048_get_time_to_empty_spec [OF neg])
      (simp_all add: time_to_empty_spec_def spec_eval)
  have b: "map_sum sint sint
       (max17048_get_time_to_empty
          (snapshot (Inr 0) (Inr 12800) (Inr (- 11)) 5000000 18500000)) = Inr 30906"
    by (subst max17048_get_time_to_empty_spec [OF neg])
      (simp_all add: time_to_empty_spec_def spec_eval)
  have c: "map_sum sint sint
       (max17048_get_time_to_empty
          (snapshot (Inr 0) (Inr 12800) (Inr (- 3000)) 5000000 18500000)) = Inr 288"
    by (subst max17048_get_time_to_empty_spec [OF neg])
      (simp_all add: time_to_empty_spec_def spec_eval)
  have d: "map_sum sint sint
       (max17048_get_time_to_empty
          (snapshot (Inr 0) (Inr 12800) (Inr (- 11)) 0 18500000)) = Inr 78671"
    by (subst max17048_get_time_to_empty_spec [OF neg])
      (simp_all add: time_to_empty_spec_def spec_eval)
  have e: "map_sum sint sint
       (max17048_get_time_to_empty
          (snapshot (Inr 0) (Inl (- EIO)) (Inr (- 11)) 5000000 18500000)) = Inl (- 5)"
    using eio by (subst max17048_get_time_to_empty_spec [OF neg])
      (simp_all add: time_to_empty_spec_def spec_eval)
  show ?thesis
    by (intro conjI a b c d e)
qed

section \<open>Time to full\<close>

lemma sint_ttf_divisor:
  "sint (ucast ((scast (c :: s16) :: s64) * 13) :: s32) = sint c * 13"
proof -
  have m: "sint ((scast c :: s64) * 13) = sint c * 13"
    using sint_s16_bounds [of c]
    by (subst sint_mult_s64) (simp_all add: sint_scast_s16_s64)
  show ?thesis
    using sint_s16_bounds [of c]
    by (subst sint_narrow_s64_s32) (simp_all add: m)
qed

lemma sint_remaining_percent:
  assumes "0 \<le> sint (soc :: s32)" "sint soc \<le> 100"
  shows "sint (100 - soc) = 100 - sint soc"
  using assms by (simp add: sint_word_ariths signed_take_bit_int_eq_self)

text \<open>
  Claim C6. With the c-rate read, TimeToFull fails with no-data when the c-rate is at
  most 10 (which covers a c-rate of 0); otherwise it fails with the code of the SOC
  read when that read fails; otherwise it returns
  \<open>225000 * (100 - soc) / (c_rate * 13)\<close> with truncating division. The designed
  capacity plays no part: no floor is applied to the rate. A c-rate of 0 gives
  no-data, and a c-rate of 11 at 90 percent gives 15734 seconds.
\<close>

theorem max17048_get_time_to_full_spec:
  assumes "error_codes_negative battery"
  shows "map_sum sint sint (max17048_get_time_to_full battery)
           = time_to_full_spec (read_crate battery) (read_soc battery)"
proof (cases "regmap battery MAX17048_CRATE_REG")
  case (Inl e)
  then have "max17048_get_crate battery = Inl e"
    using error_codes_negativeD(3) [OF assms Inl] by (intro get_crate_read_failed) auto
  with Inl show ?thesis
    by (simp add: max17048_get_time_to_full_def time_to_full_spec_def read_crate_def)
next
  case (Inr c)
  then have crate: "max17048_get_crate battery = Inr c"
    by (rule get_crate_read_ok)
  have rc: "read_crate battery = Inr (sint c)"
    using Inr by (simp add: read_crate_def)
  have le: "(scast c :: s32) \<le>s 10 \<longleftrightarrow> sint c \<le> 10"
    by (simp add: word_sle_eq sint_scast_s16_s32)
  show ?thesis
  proof (cases "sint c \<le> 10")
    case True
    then show ?thesis
      by (simp add: max17048_get_time_to_full_def time_to_full_spec_def crate rc le
            no_data_code)
  next
    case False
    then have gt: "10 < sint c" by simp
    then have cnz: "c \<noteq> 0" by auto
    show ?thesis
    proof (cases "regmap battery MAX17048_SOC_REG")
      case (Inl e)
      then have neg: "e <s 0" by (rule error_codes_negativeD(2) [OF assms])
      then have "max17048_get_soc battery = e"
        using Inl by (intro get_soc_read_failed) auto
      moreover have "read_soc battery = Inl (sint e)"
        using Inl by (simp add: read_soc_def)
      ultimately show ?thesis
        using False neg
        by (simp add: max17048_get_time_to_full_def time_to_full_spec_def crate rc le)
    next
      case (Inr s)
      let ?soc = "max17048_get_soc battery"
      let ?d = "ucast ((scast c :: s64) * 13) :: s32"
      have soc: "sint ?soc = soc_percent_spec (uint s)"
        using Inr by (simp add: get_soc_read_ok soc_percent_spec_uint)
      have soc_lo: "0 \<le> sint ?soc" and soc_hi: "sint ?soc \<le> 100"
        unfolding soc soc_percent_spec_uint by (simp_all add: pos_imp_zdiv_nonneg_iff)
      have nonneg: "\<not> ?soc <s 0"
        using soc_lo by (simp add: word_sless_alt)
      have rs: "read_soc battery = Inr (sint ?soc)"
        using Inr by (simp add: read_soc_def soc)
      have rem: "sint (100 - ?soc) = 100 - sint ?soc"
        using soc_lo soc_hi by (rule sint_remaining_percent)
      have code: "max17048_get_time_to_full battery
                    = Inr (ucast (div_s64 ((225000 :: s64) * scast (100 - ?soc)) ?d))"
        using False nonneg cnz
        by (simp add: max17048_get_time_to_full_def crate le Let_def)
      have val: "sint (ucast (div_s64 ((225000 :: s64) * scast (100 - ?soc)) ?d) :: s32)
                   = 225000 * (100 - sint ?soc) sdiv (sint c * 13)"
        using soc_lo soc_hi gt
        by (subst sint_seconds_quotient) (simp_all add: rem sint_ttf_divisor)
      show ?thesis
        using False gt
        by (simp add: code val time_to_full_spec_def rc rs)
    qed
  qed
qed

theorem max17048_get_time_to_full_spec_witness:
  "map_sum sint sint
     (max17048_get_time_to_full
        (snapshot (Inr 0) (Inr 23040) (Inr 0) 5000000 18500000)) = Inl (- 61)
   \<and> map_sum sint sint
       (max17048_get_time_to_full
          (snapshot (Inr 0) (Inr 23040) (Inr 10) 5000000 18500000)) = Inl (- 61)
   \<and> map_sum sint sint
       (max17048_get_time_to_full
          (snapshot (Inr 0) (Inr 23040) (Inr 11) 5000000 18500000)) = Inr 15734
   \<and> map_sum sint sint
       (max17048_get_time_to_full
          (snapshot (Inr 0) (Inr 23040) (Inr 11) 0 18500000)) = Inr 15734
   \<and> map_sum sint sint
       (max17048_get_time_to_full
          (snapshot (Inr 0) (Inl (- EIO)) (Inr 11) 5000000 18500000)) = Inl (- 5)"
proof -
  note neg = snapshot_codes_negative
  have eio: "- EIO <s 0" by (simp add: EIO_def word_sless_alt)
  have a: "map_sum sint sint
     (max17048_get_time_to_full
        (snapshot (Inr 0) (Inr 23040) (Inr 0) 5000000 18500000)) = Inl (- 61)"
    by (subst max17048_get_time_to_full_spec [OF neg])
      (simp_all add: time_to_full_spec_def spec_eval)
  have b: "map_sum sint sint
       (max17048_get_time_to_full
          (snapshot (Inr 0) (Inr 23040) (Inr 10) 5000000 18500000)) = Inl (- 61)"
    by (subst max17048_get_time_to_full_spec [OF neg])
      (simp_all add: time_to_full_spec_def spec_eval)
  have c: "map_sum sint sint
       (max17048_get_time_to_full
          (snapshot (Inr 0) (Inr 23040) (Inr 11) 5000000 18500000)) = Inr 15734"
    by (subst max17048_get_time_to_full_spec [OF neg])
      (simp_all add: time_to_full_spec_def spec_eval)
  have d: "map_sum sint sint
       (max17048_get_time_to_full
          (snapshot (Inr 0) (Inr 23040) (Inr 11) 0 18500000)) = Inr 15734"
    by (subst max17048_get_time_to_full_spec [OF neg])
      (simp_all add: time_to_full_spec_def spec_eval)
  have e: "map_sum sint sint
       (max17048_get_time_to_full
          (snapshot (Inr 0) (Inl (- EIO)) (Inr 11) 5000000 18500000)) = Inl (- 5)"
    using eio by (subst max17048_get_time_to_full_spec [OF neg])
      (simp_all add: time_to_full_spec_def spec_eval)
  show ?thesis
    by (intro conjI a b c d e)
qed

section \<open>Attach\<close>

lemma uint_legacy_capacity:
  assumes "(m :: u32) < 20000"
  shows "uint (m * 1000) = uint m * 1000"
proof -
  have "uint m < 20000" using assms by (simp add: word_less_def)
  then have "uint m * 1000 < 2 ^ 32" by simp
  then show ?thesis
    by (simp add: uint_word_ariths)
qed

lemma probe_charge_full_design_spec:
  "uint (probe_charge_full_design dev)
     = design_capacity_spec
         (map_option uint (dev ''charge-full-design-microamp-hours''))
         (map_option uint (dev ''battery-capacity''))"
proof (cases "dev ''charge-full-design-microamp-hours''")
  case None
  have nz: "- EINVAL \<noteq> 0" by (simp add: EINVAL_def)
  show ?thesis
  proof (cases "dev ''battery-capacity''")
    case n: None
    with None nz show ?thesis
      by (simp add: probe_charge_full_design_def device_property_read_u32_def
            design_capacity_spec_def)
  next
    case (Some m)
    have legacy: "(m > 0 \<and> m < 20000) = (0 < uint m \<and> uint m < 20000)"
      by (simp add: word_less_def)
    show ?thesis
    proof (cases "0 < uint m \<and> uint m < 20000")
      case True
      then have "m < 20000" by (simp add: word_less_def)
      then have u: "uint (m * 1000) = uint m * 1000"
        by (rule uint_legacy_capacity)
      have "m * 1000 \<noteq> 0"
      proof
        assume "m * 1000 = 0"
        then have "uint (m * 1000) = 0" by simp
        with u True show False by simp
      qed
      with None Some True nz u show ?thesis
        by (simp add: probe_charge_full_design_def device_property_read_u32_def
            design_capacity_spec_def legacy)
    next
      case False
      then have rejected: "(0 < uint m \<and> uint m < 20000) = False" by simp
      from None Some nz show ?thesis
        by (simp add: probe_charge_full_design_def device_property_read_u32_def
            design_capacity_spec_def legacy rejected)
    qed
  qed
next
  case (Some u)
  show ?thesis
  proof (cases "u > 100000000")
    case True
    then have "uint u > 100000000" by (simp add: word_less_def)
    with Some True show ?thesis
      by (simp add: probe_charge_full_design_def device_property_read_u32_def
            design_capacity_spec_def)
  next
    case False
    then have "\<not> uint u > 100000000" by (simp add: word_less_def)
    moreover have "u = 0 \<longleftrightarrow> uint u = 0" by (simp add: uint_0_iff)
    ultimately show ?thesis
      using Some False
      by (simp add: probe_charge_full_design_def device_property_read_u32_def
            design_capacity_spec_def)
  qed
qed


lemma design_capacity_spec_bounds:
  assumes "\<And>u. uah = Some u \<Longrightarrow> 0 \<le> u"
  shows "0 < design_capacity_spec uah mah" "design_capacity_spec uah mah \<le> 100000000"
  using assms
  by (auto simp: design_capacity_spec_def Let_def split: option.splits dest: order.strict_implies_not_eq)

lemma probe_charge_full_design_bounds:
  "0 < uint (probe_charge_full_design dev)"
  "uint (probe_charge_full_design dev) \<le> 100000000"
  unfolding probe_charge_full_design_spec
  by (rule design_capacity_spec_bounds; auto)+

lemma probe_energy_derived:
  assumes "dev ''energy-full-design-microwatt-hours'' = None
           \<or> dev ''energy-full-design-microwatt-hours'' = Some 0"
    and "uint charge \<le> 100000000"
  shows "uint (probe_energy_full_design dev charge) = min 370000000 (uint charge * 37 div 10)"
proof -
  let ?e = "ucast (div_u64 ((ucast charge :: u64) * 37) 10) :: u32"
  have up: "uint (ucast charge :: u64) = uint charge"
    by (simp add: uint_up_ucast is_up)
  have "uint charge * 37 < 2 ^ 64"
    using assms(2) by simp
  then have prod: "uint ((ucast charge :: u64) * 37) = uint charge * 37"
    by (simp add: uint_word_ariths up)
  have ten: "uint (ucast (10 :: u32) :: u64) = 10" by simp
  have q: "uint (div_u64 ((ucast charge :: u64) * 37) 10) = uint charge * 37 div 10"
    unfolding div_u64_def by (simp add: uint_div prod)
  have le: "uint charge * 37 div 10 \<le> 370000000"
    using assms(2) by simp
  have "?e = word_of_int (uint (div_u64 ((ucast charge :: u64) * 37) 10))"
    by (rule ucast_eq)
  then have "?e = word_of_int (uint charge * 37 div 10)"
    by (simp only: q)
  moreover have "uint (word_of_int (uint charge * 37 div 10) :: u32) = uint charge * 37 div 10"
    using le by (simp add: uint_word_of_int take_bit_int_eq_self pos_imp_zdiv_nonneg_iff)
  ultimately have e: "uint ?e = uint charge * 37 div 10" by (simp only:)
  have nz: "- EINVAL \<noteq> 0" by (simp add: EINVAL_def)
  have "probe_energy_full_design dev charge = (if ?e > 370000000 then 370000000 else ?e)"
    using assms(1) nz
    by (auto simp: probe_energy_full_design_def device_property_read_u32_def Let_def)
  moreover have "\<not> ?e > 370000000"
    using le by (simp add: word_less_def e)
  ultimately show ?thesis
    using le by (simp add: e)
qed

lemma max17048_probe_fields:
  assumes "max17048_probe client = Inr battery"
  shows "charge_full_design_uah battery = probe_charge_full_design (properties client)"
    and "energy_full_design_uwh battery
           = probe_energy_full_design (properties client)
               (probe_charge_full_design (properties client))"
  using assms
  by (auto simp: max17048_probe_def Let_def split: if_splits sum.splits option.splits)


lemma probe_client_with:
  "\<exists>battery. max17048_probe (client_with props) = Inr battery"
  by (simp add: max17048_probe_def client_with_def Let_def)

lemma properties_client_with: "properties (client_with props) = props"
  by (simp add: client_with_def)

text \<open>
  Claim C5. After a successful attach the designed capacity is: the supplied
  microamp-hour value, clamped to 100,000,000 when larger; when no microamp-hour
  value is supplied, a legacy milliamp-hour value strictly between 0 and 20000, times
  1000; and 5,000,000 when the result of these steps is 0. The queries only read the
  field: ChargeFullDesign reports it unchanged. The witness attaches with 150,000,000
  (giving 100,000,000) and with a supplied 0 (giving 5,000,000).
\<close>

theorem max17048_probe_design_capacity:
  assumes "max17048_probe client = Inr battery"
  shows "uint (charge_full_design_uah battery)
           = design_capacity_spec
               (map_option uint (properties client ''charge-full-design-microamp-hours''))
               (map_option uint (properties client ''battery-capacity''))
       \<and> max17048_get_property battery POWER_SUPPLY_PROP_CHARGE_FULL_DESIGN
           = (0, Some (charge_full_design_uah battery))"
  by (simp add: max17048_probe_fields(1) [OF assms] probe_charge_full_design_spec
        max17048_get_property_def)

theorem max17048_probe_design_capacity_witness:
  "(case max17048_probe
           (client_with [''charge-full-design-microamp-hours'' \<mapsto> 150000000]) of
      Inl err \<Rightarrow> False
    | Inr battery \<Rightarrow> uint (charge_full_design_uah battery) = 100000000)
   \<and> (case max17048_probe
             (client_with [''charge-full-design-microamp-hours'' \<mapsto> 0,
                           ''battery-capacity'' \<mapsto> 4000]) of
        Inl err \<Rightarrow> False
      | Inr battery \<Rightarrow> uint (charge_full_design_uah battery) = 5000000)
   \<and> (case max17048_probe (client_with [''battery-capacity'' \<mapsto> 4000]) of
        Inl err \<Rightarrow> False
      | Inr battery \<Rightarrow> uint (charge_full_design_uah battery) = 4000000)
   \<and> (case max17048_probe (client_with [''battery-capacity'' \<mapsto> 20000]) of
        Inl err \<Rightarrow> False
      | Inr battery \<Rightarrow> uint (charge_full_design_uah battery) = 5000000)"
proof -
  have eval: "\<And>props n.
      design_capacity_spec
        (map_option uint (props ''charge-full-design-microamp-hours''))
        (map_option uint (props ''battery-capacity'')) = n \<Longrightarrow>
      (case max17048_probe (client_with props) of
         Inl err \<Rightarrow> False
       | Inr battery \<Rightarrow> uint (charge_full_design_uah battery) = n)"
  proof -
    fix props :: "string \<rightharpoonup> u32" and n :: int
    assume n: "design_capacity_spec
        (map_option uint (props ''charge-full-design-microamp-hours''))
        (map_option uint (props ''battery-capacity'')) = n"
    obtain battery where b: "max17048_probe (client_with props) = Inr battery"
      using probe_client_with by blast
    from max17048_probe_design_capacity [OF b] n
    show "case max17048_probe (client_with props) of
         Inl err \<Rightarrow> False
       | Inr battery \<Rightarrow> uint (charge_full_design_uah battery) = n"
      by (simp add: b properties_client_with)
  qed
  show ?thesis
    by (intro conjI eval) (simp_all add: design_capacity_spec_def)
qed


lemma probe_client_with_fields:
  "\<not> isl (max17048_probe (client_with props))"
  "charge_full_design_uah (projr (max17048_probe (client_with props)))
     = probe_charge_full_design props"
  "energy_full_design_uwh (projr (max17048_probe (client_with props)))
     = probe_energy_full_design props (probe_charge_full_design props)"
  by (simp_all add: max17048_probe_def client_with_def Let_def)

lemma probe_client_with_projr:
  "max17048_probe (client_with props) = Inr (projr (max17048_probe (client_with props)))"
  using probe_client_with [of props] by auto

text \<open>
  Claim C7 as written says capacity times 3.7 over 10. An attach with no properties
  has capacity 5,000,000 and energy 18,500,000, not 1,850,000.
\<close>

theorem max17048_probe_design_energy_as_written_counterexample:
  "\<not> isl (max17048_probe (client_with Map.empty))
   \<and> uint (charge_full_design_uah (projr (max17048_probe (client_with Map.empty)))) = 5000000
   \<and> uint (energy_full_design_uwh (projr (max17048_probe (client_with Map.empty)))) = 18500000
   \<and> design_energy_as_written 5000000 = 1850000"
  by (simp add: probe_client_with_fields probe_charge_full_design_def
        probe_energy_full_design_def device_property_read_u32_def EINVAL_def div_u64_def
        design_energy_as_written_def signed_divide_int_def)

text \<open>
  Claim C7, amended. After a successful attach with the designed energy not
  configured, or configured as zero, the designed energy is the designed capacity
  times 37 over 10 (3.7 V nominal) with truncating division, at most 370,000,000
  microwatt-hours. The queries only read the field: EnergyFullDesign reports it
  unchanged.
\<close>

theorem max17048_probe_design_energy:
  assumes "max17048_probe client = Inr battery"
    and "properties client ''energy-full-design-microwatt-hours'' = None
         \<or> properties client ''energy-full-design-microwatt-hours'' = Some 0"
  shows "uint (energy_full_design_uwh battery)
           = min 370000000 (uint (charge_full_design_uah battery) * 37 div 10)
       \<and> max17048_get_property battery POWER_SUPPLY_PROP_ENERGY_FULL_DESIGN
           = (0, Some (energy_full_design_uwh battery))"
  using assms(2) probe_charge_full_design_bounds(2) [of "properties client"]
  by (simp add: max17048_probe_fields [OF assms(1)] probe_energy_derived
        max17048_get_property_def)

theorem max17048_probe_design_energy_witness:
  "uint (energy_full_design_uwh (projr (max17048_probe (client_with Map.empty)))) = 18500000
   \<and> uint (energy_full_design_uwh (projr (max17048_probe
        (client_with [''charge-full-design-microamp-hours'' \<mapsto> 150000000,
                      ''energy-full-design-microwatt-hours'' \<mapsto> 0])))) = 370000000"
proof -
  let ?c1 = "client_with Map.empty"
  let ?c2 = "client_with [''charge-full-design-microamp-hours'' \<mapsto> 150000000,
                      ''energy-full-design-microwatt-hours'' \<mapsto> 0]"
  have a: "uint (energy_full_design_uwh (projr (max17048_probe ?c1))) = 18500000"
    using max17048_probe_design_energy [OF probe_client_with_projr, of Map.empty]
    by (simp add: properties_client_with probe_client_with_fields(2)
          probe_charge_full_design_def device_property_read_u32_def EINVAL_def)
  have b: "uint (energy_full_design_uwh (projr (max17048_probe ?c2))) = 370000000"
    using max17048_probe_design_energy [OF probe_client_with_projr,
        of "[''charge-full-design-microamp-hours'' \<mapsto> 150000000,
             ''energy-full-design-microwatt-hours'' \<mapsto> 0]"]
    by (simp add: properties_client_with probe_client_with_fields(2)
          probe_charge_full_design_def device_property_read_u32_def EINVAL_def)
  show ?thesis by (intro conjI a b)
qed


text \<open>
  Claim C10. After a successful attach the stored designed capacity is positive and
  at most 100,000,000, so the zero-capacity branch of the TimeToEmpty floor is not
  taken; and for every c-rate below \<open>-10\<close> the floor returns a discharge rate that
  is at least 11 and at least \<open>144230769 / capacity\<close>, whose product with 13, the
  divisor handed to \<open>div_s64\<close>, does not wrap and is positive.
\<close>

theorem max17048_probe_time_to_empty_divisor:
  assumes "max17048_probe client = Inr battery"
  shows "0 < charge_full_design_uah battery
       \<and> 0 < uint (charge_full_design_uah battery)
       \<and> uint (charge_full_design_uah battery) \<le> 100000000
       \<and> (\<forall>crate. sint crate < - 10 \<longrightarrow>
             (\<exists>r. tte_discharge_rate (charge_full_design_uah battery) crate = Inr r
                \<and> 11 \<le> sint r
                \<and> 0 < 144230769 div uint (charge_full_design_uah battery)
                \<and> 144230769 div uint (charge_full_design_uah battery) \<le> sint r
                \<and> sint (tte_divisor r) = sint r * 13
                \<and> 0 < sint (tte_divisor r)))"
proof (intro conjI allI impI)
  let ?cap = "charge_full_design_uah battery"
  have cap: "?cap = probe_charge_full_design (properties client)"
    by (rule max17048_probe_fields(1) [OF assms])
  show pos: "0 < uint ?cap" and le: "uint ?cap \<le> 100000000"
    unfolding cap by (rule probe_charge_full_design_bounds)+
  then show "0 < ?cap" by (simp add: word_less_def)
  fix crate :: s16
  assume lt: "sint crate < - 10"
  obtain r where r: "tte_discharge_rate ?cap crate = Inr r"
    and rv: "sint r = (if 0 < uint ?cap \<and> \<bar>sint crate\<bar> < 144230769 div uint ?cap
                       then 144230769 div uint ?cap else \<bar>sint crate\<bar>)"
    using tte_discharge_rate_value [OF lt, of ?cap] by blast
  have r_lo: "11 \<le> sint r"
    using lt unfolding rv by (simp split: if_splits)
  have floor: "144230769 div uint ?cap \<le> sint r"
    using pos unfolding rv by simp
  have abs_hi: "\<bar>sint crate\<bar> \<le> 144230769"
    using sint_s16_bounds [of crate] by linarith
  have r_hi: "sint r \<le> 144230769"
    using abs_hi min_rate_bounds(4) [of ?cap]
    unfolding rv by (simp split: if_splits)
  have dv: "sint (tte_divisor r) = sint r * 13"
    using r_lo r_hi by (intro sint_tte_divisor) simp_all
  have "144230769 div 100000000 \<le> 144230769 div uint ?cap"
    using pos le by (intro zdiv_mono2) simp_all
  then have floor_pos: "0 < 144230769 div uint ?cap"
    by simp
  show "\<exists>r. tte_discharge_rate ?cap crate = Inr r
                \<and> 11 \<le> sint r
                \<and> 0 < 144230769 div uint ?cap
                \<and> 144230769 div uint ?cap \<le> sint r
                \<and> sint (tte_divisor r) = sint r * 13
                \<and> 0 < sint (tte_divisor r)"
    using r r_lo floor floor_pos dv by simp
qed

theorem max17048_probe_time_to_empty_divisor_witness:
  "0 < uint (charge_full_design_uah (projr (max17048_probe (client_with Map.empty))))
   \<and> (\<exists>r. tte_discharge_rate
            (charge_full_design_uah (projr (max17048_probe (client_with Map.empty)))) (- 11)
              = Inr r
          \<and> 28 \<le> sint r \<and> 0 < sint (tte_divisor r))"
proof -
  have lt: "sint (- 11 :: s16) < - 10" by simp
  have cap: "uint (charge_full_design_uah (projr (max17048_probe (client_with Map.empty))))
               = 5000000"
    by (simp add: probe_client_with_fields(2) probe_charge_full_design_def
          device_property_read_u32_def EINVAL_def)
  note all = max17048_probe_time_to_empty_divisor [OF probe_client_with_projr, of Map.empty]
  note at = all [THEN conjunct2, THEN conjunct2, THEN conjunct2, THEN spec, THEN mp, OF lt]
  have pos: "0 < uint (charge_full_design_uah (projr (max17048_probe (client_with Map.empty))))"
    by (simp add: cap)
  from at obtain r where
    r: "tte_discharge_rate
          (charge_full_design_uah (projr (max17048_probe (client_with Map.empty)))) (- 11)
            = Inr r"
    and floor: "144230769 div
          uint (charge_full_design_uah (projr (max17048_probe (client_with Map.empty))))
            \<le> sint r"
    and dv: "0 < sint (tte_divisor r)"
    by blast
  from floor have "28 \<le> sint r"
    by (simp add: cap)
  with pos r dv show ?thesis
    by blast
qed

section \<open>Current\<close>

lemma abs_mult_bound: "\<bar>a\<bar> \<le> A \<Longrightarrow> \<bar>b\<bar> \<le> B \<Longrightarrow> \<bar>a * b\<bar> \<le> A * (B :: int)"
  by (simp add: abs_mult mult_mono)

lemma sint_current_product:
  "sint ((ucast (cap :: u32) :: s64) * scast (c :: s16) * 52) = uint cap * sint c * 52"
proof -
  have a: "\<bar>uint cap\<bar> \<le> 4294967295"
    using uint_bounded [of cap] by simp
  have b: "\<bar>sint c\<bar> \<le> 32768"
    using sint_s16_bounds [of c] by linarith
  have ab: "\<bar>uint cap * sint c\<bar> \<le> 4294967295 * 32768"
    using a b by (rule abs_mult_bound)
  have "- 9223372036854775808 \<le> uint cap * sint c"
    and "uint cap * sint c < 9223372036854775808"
    using ab by linarith+
  then have m1: "sint ((ucast cap :: s64) * scast c) = uint cap * sint c"
    by (subst sint_mult_s64) (simp_all add: sint_ucast_u32_s64 sint_scast_s16_s64)
  have "\<bar>uint cap * sint c * 52\<bar> \<le> 4294967295 * 32768 * 52"
    by (rule abs_mult_bound [OF ab]) simp
  then have "- 9223372036854775808 \<le> uint cap * sint c * 52"
    and "uint cap * sint c * 52 < 9223372036854775808"
    by linarith+
  then show ?thesis
    by (subst sint_mult_s64) (simp_all add: m1)
qed

lemma sint_current_quotient:
  "sint (div_s64 ((ucast (cap :: u32) :: s64) * scast (c :: s16) * 52) 25000)
     = current_spec (uint cap) (sint c)"
proof -
  let ?p = "uint cap * sint c * 52"
  have a: "\<bar>uint cap\<bar> \<le> 4294967295"
    using uint_bounded [of cap] by simp
  have b: "\<bar>sint c\<bar> \<le> 32768"
    using sint_s16_bounds [of c] by linarith
  have ab: "\<bar>uint cap * sint c\<bar> \<le> 4294967295 * 32768"
    using a b by (rule abs_mult_bound)
  have p: "\<bar>?p\<bar> \<le> 4294967295 * 32768 * 52"
    by (rule abs_mult_bound [OF ab]) simp
  have "\<bar>?p sdiv 25000\<bar> = \<bar>?p\<bar> div 25000"
    by (simp add: abs_sdiv_int)
  also have "\<dots> \<le> \<bar>?p\<bar>"
    by (rule int_div_le_dividend) simp
  finally have "\<bar>?p sdiv 25000\<bar> \<le> 4294967295 * 32768 * 52"
    using p by linarith
  then have "- 9223372036854775808 \<le> ?p sdiv 25000"
    and "?p sdiv 25000 < 9223372036854775808"
    by linarith+
  then show ?thesis
    unfolding current_spec_def
    by (subst sint_div_s64) (simp_all add: sint_current_product)
qed

lemma get_current_read_ok:
  assumes "regmap battery MAX17048_CRATE_REG = Inr c"
    and "- 2147483648 \<le> current_spec (uint (charge_full_design_uah battery)) (sint c)"
    and "current_spec (uint (charge_full_design_uah battery)) (sint c) < 2147483648"
  shows "map_sum sint sint (max17048_get_current battery)
           = Inr (current_spec (uint (charge_full_design_uah battery)) (sint c))"
proof -
  have "max17048_get_current battery
          = Inr (ucast (div_s64
                  ((ucast (charge_full_design_uah battery) :: s64) * scast c * 52) 25000))"
    by (simp add: max17048_get_current_def get_crate_read_ok [OF assms(1)])
  then show ?thesis
    using assms(2,3)
    by (simp add: sint_narrow_s64_s32 sint_current_quotient)
qed

lemma current_spec_fits:
  assumes "0 \<le> cap" "cap \<le> 31507692" "- 32768 \<le> c" "c \<le> 32767"
  shows "- 2147483648 \<le> current_spec cap c" "current_spec cap c < 2147483648"
proof -
  have a: "\<bar>cap\<bar> \<le> 31507692" and b: "\<bar>c\<bar> \<le> 32768"
    using assms by linarith+
  have ab: "\<bar>cap * c\<bar> \<le> 31507692 * 32768"
    using a b by (rule abs_mult_bound)
  have p: "\<bar>cap * c * 52\<bar> \<le> 31507692 * 32768 * 52"
    by (rule abs_mult_bound [OF ab]) simp
  have "\<bar>current_spec cap c\<bar> = \<bar>cap * c * 52\<bar> div 25000"
    by (simp add: current_spec_def abs_sdiv_int)
  also have "\<dots> \<le> (31507692 * 32768 * 52) div 25000"
    using p by (intro zdiv_mono1) simp_all
  finally have "\<bar>current_spec cap c\<bar> \<le> 2147483627"
    by simp
  then show "- 2147483648 \<le> current_spec cap c" "current_spec cap c < 2147483648"
    by linarith+
qed

text \<open>
  Claim C4, amended. CurrentNow fails exactly when the c-rate read fails. Otherwise
  it returns \<open>DesignCapacity * c_rate * 52 / 25000\<close>, computed in 64 bits with
  truncating division, whenever that quotient fits the signed 32-bit result; it does
  so for every c-rate when the capacity is at most 31,507,692 microamp-hours. The
  noise band plays no part: inside it the same formula applies.
\<close>

theorem max17048_get_current_spec:
  assumes "error_codes_negative battery"
  shows "(isl (max17048_get_current battery) \<longleftrightarrow> isl (read_crate battery))
       \<and> (\<forall>c. read_crate battery = Inr c
              \<and> - 2147483648 \<le> current_spec (uint (charge_full_design_uah battery)) c
              \<and> current_spec (uint (charge_full_design_uah battery)) c < 2147483648
            \<longrightarrow> map_sum sint sint (max17048_get_current battery)
                  = Inr (current_spec (uint (charge_full_design_uah battery)) c))
       \<and> (\<forall>c. read_crate battery = Inr c
              \<and> uint (charge_full_design_uah battery) \<le> 31507692
            \<longrightarrow> map_sum sint sint (max17048_get_current battery)
                  = Inr (current_spec (uint (charge_full_design_uah battery)) c))"
proof (cases "regmap battery MAX17048_CRATE_REG")
  case (Inl e)
  then have "max17048_get_crate battery = Inl e"
    using error_codes_negativeD(3) [OF assms Inl] by (intro get_crate_read_failed) auto
  with Inl show ?thesis
    by (simp add: max17048_get_current_def read_crate_def)
next
  case (Inr raw)
  let ?cap = "uint (charge_full_design_uah battery)"
  have rc: "read_crate battery = Inr (sint raw)"
    using Inr by (simp add: read_crate_def)
  have ok: "\<not> isl (max17048_get_current battery)"
    by (simp add: max17048_get_current_def get_crate_read_ok [OF Inr])
  have fits: "map_sum sint sint (max17048_get_current battery) = Inr (current_spec ?cap c)"
    if "read_crate battery = Inr c" "- 2147483648 \<le> current_spec ?cap c"
      "current_spec ?cap c < 2147483648" for c
    using that get_current_read_ok [OF Inr] by (simp add: rc)
  have small: "map_sum sint sint (max17048_get_current battery) = Inr (current_spec ?cap c)"
    if "read_crate battery = Inr c" "?cap \<le> 31507692" for c
  proof -
    have c: "c = sint raw" using that(1) by (simp add: rc)
    show ?thesis
      using that(1)
      by (rule fits)
        (use that(2) sint_s16_bounds [of raw] in \<open>simp_all add: c current_spec_fits\<close>)
  qed
  show ?thesis
    using ok fits small by (simp add: rc)
qed


text \<open>
  Claim C4 as written gives the quotient for every input. With the largest capacity
  an attach can store, 100,000,000, and a c-rate of 32767 the quotient is
  6,815,536,000; narrowed to \<open>int\<close> the code returns \<open>-1,774,398,592\<close>. Inside
  the noise band the result is not forced to 0: a c-rate of 3 with 5,000,000
  microamp-hours gives 31200.
\<close>

theorem max17048_get_current_overflow_counterexample:
  "map_sum sint sint
     (max17048_get_current (snapshot (Inr 0) (Inr 0) (Inr 32767) 100000000 370000000))
     = Inr (- 1774398592)
   \<and> current_spec 100000000 32767 = 6815536000
   \<and> map_sum sint sint
       (max17048_get_current (snapshot (Inr 0) (Inr 0) (Inr 3) 5000000 18500000))
       = Inr 31200"
  by (simp add: max17048_get_current_def max17048_get_crate_def regmap_read_def
        snapshot_regs snapshot_design div_s64_def current_spec_def signed_divide_int_def)

theorem max17048_get_current_spec_witness:
  "map_sum sint sint
     (max17048_get_current (snapshot (Inr 0) (Inr 0) (Inr 3) 5000000 18500000)) = Inr 31200
   \<and> map_sum sint sint
     (max17048_get_current (snapshot (Inr 0) (Inr 0) (Inr (- 3)) 5000001 18500000))
       = Inr (- 31200)
   \<and> map_sum sint sint
     (max17048_get_current (snapshot (Inr 0) (Inr 0) (Inr 0) 5000000 18500000)) = Inr 0
   \<and> map_sum sint sint
     (max17048_get_current (snapshot (Inr 0) (Inr 0) (Inr 10324) 100000000 370000000))
       = Inr 2147392000
   \<and> isl (max17048_get_current (snapshot (Inr 0) (Inr 0) (Inl (- EIO)) 5000000 18500000))"
proof -
  have eio: "- EIO <s 0" by (simp add: EIO_def word_sless_alt)
  have at: "map_sum sint sint (max17048_get_current (snapshot (Inr 0) (Inr 0) (Inr c) q e))
              = Inr (current_spec (uint q) (sint c))"
    if "- 2147483648 \<le> current_spec (uint q) (sint c)"
      and "current_spec (uint q) (sint c) < 2147483648" for c q e
  proof -
    let ?b = "snapshot (Inr 0) (Inr 0) (Inr c) q e"
    have n: "error_codes_negative ?b"
      by (rule snapshot_codes_negative) simp_all
    have r: "read_crate ?b = Inr (sint c)"
      by (simp add: read_crate_def snapshot_regs)
    from max17048_get_current_spec [OF n] r that show ?thesis
      by (simp add: snapshot_design)
  qed
  have a: "map_sum sint sint
     (max17048_get_current (snapshot (Inr 0) (Inr 0) (Inr 3) 5000000 18500000)) = Inr 31200"
    by (subst at) (simp_all add: current_spec_def signed_divide_int_def)
  have b: "map_sum sint sint
     (max17048_get_current (snapshot (Inr 0) (Inr 0) (Inr (- 3)) 5000001 18500000))
       = Inr (- 31200)"
    by (subst at) (simp_all add: current_spec_def signed_divide_int_def)
  have c: "map_sum sint sint
     (max17048_get_current (snapshot (Inr 0) (Inr 0) (Inr 0) 5000000 18500000)) = Inr 0"
    by (subst at) (simp_all add: current_spec_def signed_divide_int_def)
  have d: "map_sum sint sint
     (max17048_get_current (snapshot (Inr 0) (Inr 0) (Inr 10324) 100000000 370000000))
       = Inr 2147392000"
    by (subst at) (simp_all add: current_spec_def signed_divide_int_def)
  have e: "isl (max17048_get_current (snapshot (Inr 0) (Inr 0) (Inl (- EIO)) 5000000 18500000))"
  proof -
    let ?b = "snapshot (Inr 0) (Inr 0) (Inl (- EIO)) 5000000 18500000"
    have n: "error_codes_negative ?b"
      using eio by (intro snapshot_codes_negative) simp_all
    from max17048_get_current_spec [OF n] show ?thesis
      by (simp add: read_crate_def snapshot_regs)
  qed
  show ?thesis
    by (intro conjI a b c d e)
qed

section \<open>Metric dispatch\<close>

lemma get_vcell_read_failed:
  assumes "regmap battery MAX17048_VCELL_REG = Inl e" "e \<noteq> 0"
  shows "max17048_get_vcell battery = e"
  using assms by (simp add: max17048_get_vcell_def regmap_read_def)

lemma get_current_crate_failed:
  assumes "regmap battery MAX17048_CRATE_REG = Inl e" "e \<noteq> 0"
  shows "max17048_get_current battery = Inl e"
  by (simp add: max17048_get_current_def get_crate_read_failed [OF assms])

lemma get_time_to_empty_crate_failed:
  assumes "regmap battery MAX17048_CRATE_REG = Inl e" "e \<noteq> 0"
  shows "max17048_get_time_to_empty battery = Inl e"
  by (simp add: max17048_get_time_to_empty_def get_crate_read_failed [OF assms])

lemma get_time_to_full_crate_failed:
  assumes "regmap battery MAX17048_CRATE_REG = Inl e" "e \<noteq> 0"
  shows "max17048_get_time_to_full battery = Inl e"
  by (simp add: max17048_get_time_to_full_def get_crate_read_failed [OF assms])

lemma get_time_to_empty_soc_failed:
  assumes "regmap battery MAX17048_CRATE_REG = Inr c" "sint c < - 10"
    and "regmap battery MAX17048_SOC_REG = Inl e" "e <s 0"
  shows "max17048_get_time_to_empty battery = Inl e"
proof -
  have "max17048_get_soc battery = e"
    using assms(3,4) by (intro get_soc_read_failed) auto
  then show ?thesis
    using assms(2,4)
    by (simp add: max17048_get_time_to_empty_def get_crate_read_ok [OF assms(1)]
          word_sle_eq sint_scast_s16_s32)
qed

lemma get_time_to_full_soc_failed:
  assumes "regmap battery MAX17048_CRATE_REG = Inr c" "10 < sint c"
    and "regmap battery MAX17048_SOC_REG = Inl e" "e <s 0"
  shows "max17048_get_time_to_full battery = Inl e"
proof -
  have "max17048_get_soc battery = e"
    using assms(3,4) by (intro get_soc_read_failed) auto
  then show ?thesis
    using assms(2,4)
    by (simp add: max17048_get_time_to_full_def get_crate_read_ok [OF assms(1)]
          word_sle_eq sint_scast_s16_s32)
qed

text \<open>
  Claim C3, amended. For the selectors VoltageNow, CapacityPercent, ChargeNow,
  CurrentNow, TimeToEmpty and TimeToFull, when a register read that the query makes
  fails, the query returns the code of that read as it is and writes no value. The
  c-rate is read first; TimeToEmpty reads the SOC only for a c-rate below \<open>-10\<close>
  and TimeToFull only for a c-rate above 10. The code returned is the transport's, so
  it differs from the no-data code whenever the transport's code does. For Status a
  failed c-rate read gives return code 0 and the value Unknown. A failed read is one
  that returns a negative code.
\<close>

theorem max17048_get_property_transport_error:
  assumes "error_codes_negative battery"
  shows "(\<forall>e. regmap battery MAX17048_CRATE_REG = Inl e \<longrightarrow>
            max17048_get_property battery POWER_SUPPLY_PROP_STATUS
              = (0, Some (status_intval POWER_SUPPLY_STATUS_UNKNOWN)))
       \<and> (\<forall>e. regmap battery MAX17048_VCELL_REG = Inl e \<longrightarrow>
            max17048_get_property battery POWER_SUPPLY_PROP_VOLTAGE_NOW = (e, None))
       \<and> (\<forall>e. regmap battery MAX17048_SOC_REG = Inl e \<longrightarrow>
            max17048_get_property battery POWER_SUPPLY_PROP_CAPACITY = (e, None)
            \<and> max17048_get_property battery POWER_SUPPLY_PROP_CHARGE_NOW = (e, None))
       \<and> (\<forall>e. regmap battery MAX17048_CRATE_REG = Inl e \<longrightarrow>
            max17048_get_property battery POWER_SUPPLY_PROP_CURRENT_NOW = (e, None)
            \<and> max17048_get_property battery POWER_SUPPLY_PROP_TIME_TO_EMPTY_NOW = (e, None)
            \<and> max17048_get_property battery POWER_SUPPLY_PROP_TIME_TO_FULL_NOW = (e, None))
       \<and> (\<forall>e c. regmap battery MAX17048_CRATE_REG = Inr c \<and> sint c < - 10
              \<and> regmap battery MAX17048_SOC_REG = Inl e \<longrightarrow>
            max17048_get_property battery POWER_SUPPLY_PROP_TIME_TO_EMPTY_NOW = (e, None))
       \<and> (\<forall>e c. regmap battery MAX17048_CRATE_REG = Inr c \<and> 10 < sint c
              \<and> regmap battery MAX17048_SOC_REG = Inl e \<longrightarrow>
            max17048_get_property battery POWER_SUPPLY_PROP_TIME_TO_FULL_NOW = (e, None))"
proof (intro conjI allI impI)
  fix e
  assume h: "regmap battery MAX17048_CRATE_REG = Inl e"
  then have "e <s 0" by (rule error_codes_negativeD(3) [OF assms])
  then have "e \<noteq> 0" by auto
  then show "max17048_get_property battery POWER_SUPPLY_PROP_STATUS
               = (0, Some (status_intval POWER_SUPPLY_STATUS_UNKNOWN))"
    by (simp add: max17048_get_property_def max17048_get_status_def
          get_crate_read_failed [OF h])
next
  fix e
  assume h: "regmap battery MAX17048_VCELL_REG = Inl e"
  then have neg: "e <s 0" by (rule error_codes_negativeD(1) [OF assms])
  then have "max17048_get_vcell battery = e"
    using h by (intro get_vcell_read_failed) auto
  with neg show "max17048_get_property battery POWER_SUPPLY_PROP_VOLTAGE_NOW = (e, None)"
    by (simp add: max17048_get_property_def)
next
  fix e
  assume h: "regmap battery MAX17048_SOC_REG = Inl e"
  then have neg: "e <s 0" by (rule error_codes_negativeD(2) [OF assms])
  then have soc: "max17048_get_soc battery = e"
    using h by (intro get_soc_read_failed) auto
  from neg soc show "max17048_get_property battery POWER_SUPPLY_PROP_CAPACITY = (e, None)"
    by (simp add: max17048_get_property_def)
  from neg soc show "max17048_get_property battery POWER_SUPPLY_PROP_CHARGE_NOW = (e, None)"
    by (simp add: max17048_get_property_def)
next
  fix e
  assume h: "regmap battery MAX17048_CRATE_REG = Inl e"
  then have neg: "e <s 0" by (rule error_codes_negativeD(3) [OF assms])
  then have nz: "e \<noteq> 0" by auto
  from neg show "max17048_get_property battery POWER_SUPPLY_PROP_CURRENT_NOW = (e, None)"
    by (simp add: max17048_get_property_def get_current_crate_failed [OF h nz])
  from neg show
    "max17048_get_property battery POWER_SUPPLY_PROP_TIME_TO_EMPTY_NOW = (e, None)"
    by (simp add: max17048_get_property_def get_time_to_empty_crate_failed [OF h nz])
  from neg show
    "max17048_get_property battery POWER_SUPPLY_PROP_TIME_TO_FULL_NOW = (e, None)"
    by (simp add: max17048_get_property_def get_time_to_full_crate_failed [OF h nz])
next
  fix e c
  assume h: "regmap battery MAX17048_CRATE_REG = Inr c \<and> sint c < - 10
              \<and> regmap battery MAX17048_SOC_REG = Inl e"
  then have neg: "e <s 0" using error_codes_negativeD(2) [OF assms] by blast
  with h have "max17048_get_time_to_empty battery = Inl e"
    by (intro get_time_to_empty_soc_failed) auto
  with neg show
    "max17048_get_property battery POWER_SUPPLY_PROP_TIME_TO_EMPTY_NOW = (e, None)"
    by (simp add: max17048_get_property_def)
next
  fix e c
  assume h: "regmap battery MAX17048_CRATE_REG = Inr c \<and> 10 < sint c
              \<and> regmap battery MAX17048_SOC_REG = Inl e"
  then have neg: "e <s 0" using error_codes_negativeD(2) [OF assms] by blast
  with h have "max17048_get_time_to_full battery = Inl e"
    by (intro get_time_to_full_soc_failed) auto
  with neg show
    "max17048_get_property battery POWER_SUPPLY_PROP_TIME_TO_FULL_NOW = (e, None)"
    by (simp add: max17048_get_property_def)
qed


text \<open>
  Claim C3 as written covers every selector. For Status a failed c-rate read gives
  return code 0 with the value Unknown, and a failed SOC read inside the noise band
  gives return code 0 with the value NotCharging. A transport code equal to
  \<open>-ENODATA\<close> gives the same outcome as no-data.
\<close>

theorem max17048_get_property_status_counterexample:
  "max17048_get_property (snapshot (Inr 0) (Inr 0) (Inl (- EIO)) 5000000 18500000)
     POWER_SUPPLY_PROP_STATUS = (0, Some (status_intval POWER_SUPPLY_STATUS_UNKNOWN))
   \<and> max17048_get_property (snapshot (Inr 0) (Inl (- EIO)) (Inr 0) 5000000 18500000)
     POWER_SUPPLY_PROP_STATUS = (0, Some (status_intval POWER_SUPPLY_STATUS_NOT_CHARGING))
   \<and> max17048_get_property (snapshot (Inr 0) (Inr 0) (Inl (- ENODATA)) 5000000 18500000)
     POWER_SUPPLY_PROP_TIME_TO_FULL_NOW = (- ENODATA, None)
   \<and> max17048_get_property (snapshot (Inr 0) (Inr 0) (Inr 0) 5000000 18500000)
     POWER_SUPPLY_PROP_TIME_TO_FULL_NOW = (- ENODATA, None)"
  by (simp add: max17048_get_property_def max17048_get_status_def max17048_get_crate_def
        max17048_get_soc_def max17048_get_time_to_full_def regmap_read_def snapshot_regs
        EIO_def ENODATA_def word_sle_eq word_sless_alt)

theorem max17048_get_property_transport_error_witness:
  "max17048_get_property (snapshot (Inr 0) (Inr 0) (Inl (- EIO)) 5000000 18500000)
     POWER_SUPPLY_PROP_STATUS = (0, Some (status_intval POWER_SUPPLY_STATUS_UNKNOWN))
   \<and> max17048_get_property (snapshot (Inl (- EIO)) (Inr 0) (Inr 0) 5000000 18500000)
     POWER_SUPPLY_PROP_VOLTAGE_NOW = (- EIO, None)
   \<and> max17048_get_property (snapshot (Inr 0) (Inl (- EIO)) (Inr 0) 5000000 18500000)
     POWER_SUPPLY_PROP_CAPACITY = (- EIO, None)
   \<and> max17048_get_property (snapshot (Inr 0) (Inl (- EIO)) (Inr 0) 5000000 18500000)
     POWER_SUPPLY_PROP_CHARGE_NOW = (- EIO, None)
   \<and> max17048_get_property (snapshot (Inr 0) (Inr 0) (Inl (- EIO)) 5000000 18500000)
     POWER_SUPPLY_PROP_CURRENT_NOW = (- EIO, None)
   \<and> max17048_get_property (snapshot (Inr 0) (Inr 0) (Inl (- EIO)) 5000000 18500000)
     POWER_SUPPLY_PROP_TIME_TO_EMPTY_NOW = (- EIO, None)
   \<and> max17048_get_property (snapshot (Inr 0) (Inr 0) (Inl (- EIO)) 5000000 18500000)
     POWER_SUPPLY_PROP_TIME_TO_FULL_NOW = (- EIO, None)
   \<and> max17048_get_property (snapshot (Inr 0) (Inl (- EIO)) (Inr (- 11)) 5000000 18500000)
     POWER_SUPPLY_PROP_TIME_TO_EMPTY_NOW = (- EIO, None)
   \<and> max17048_get_property (snapshot (Inr 0) (Inl (- EIO)) (Inr 11) 5000000 18500000)
     POWER_SUPPLY_PROP_TIME_TO_FULL_NOW = (- EIO, None)"
proof -
  have eio: "- EIO <s 0" by (simp add: EIO_def word_sless_alt)
  let ?v = "snapshot (Inl (- EIO)) (Inr 0) (Inr 0) 5000000 18500000"
  let ?s = "snapshot (Inr 0) (Inl (- EIO)) (Inr 0) 5000000 18500000"
  let ?c = "snapshot (Inr 0) (Inr 0) (Inl (- EIO)) 5000000 18500000"
  let ?e = "snapshot (Inr 0) (Inl (- EIO)) (Inr (- 11)) 5000000 18500000"
  let ?f = "snapshot (Inr 0) (Inl (- EIO)) (Inr 11) 5000000 18500000"
  have nv: "error_codes_negative ?v" and ns: "error_codes_negative ?s"
    and nc: "error_codes_negative ?c" and ne: "error_codes_negative ?e"
    and nf: "error_codes_negative ?f"
    using eio by (simp_all add: snapshot_codes_negative)
  have v: "regmap ?v MAX17048_VCELL_REG = Inl (- EIO)"
    and s: "regmap ?s MAX17048_SOC_REG = Inl (- EIO)"
    and c: "regmap ?c MAX17048_CRATE_REG = Inl (- EIO)"
    and e: "regmap ?e MAX17048_CRATE_REG = Inr (- 11) \<and> sint (- 11 :: s16) < - 10
              \<and> regmap ?e MAX17048_SOC_REG = Inl (- EIO)"
    and f: "regmap ?f MAX17048_CRATE_REG = Inr 11 \<and> 10 < sint (11 :: s16)
              \<and> regmap ?f MAX17048_SOC_REG = Inl (- EIO)"
    by (simp_all add: snapshot_regs)
  note u = max17048_get_property_transport_error
    [OF nc, THEN conjunct1, rule_format, OF c]
  note a = max17048_get_property_transport_error
    [OF nv, THEN conjunct2, THEN conjunct1, rule_format, OF v]
  note b = max17048_get_property_transport_error
    [OF ns, THEN conjunct2, THEN conjunct2, THEN conjunct1, rule_format, OF s]
  note c = max17048_get_property_transport_error
    [OF nc, THEN conjunct2, THEN conjunct2, THEN conjunct2, THEN conjunct1,
      rule_format, OF c]
  note d = max17048_get_property_transport_error
    [OF ne, THEN conjunct2, THEN conjunct2, THEN conjunct2, THEN conjunct2,
      THEN conjunct1, rule_format, OF e]
  note f = max17048_get_property_transport_error
    [OF nf, THEN conjunct2, THEN conjunct2, THEN conjunct2, THEN conjunct2,
      THEN conjunct2, rule_format, OF f]
  from u a b c d f show ?thesis
    by simp
qed

end
